theory Spec2Isabelle
  imports Complex_Main
begin

section \<open>Calendar dates\<close>

text \<open>
  The date columns (\<open>start_date\<close>, \<open>end_date\<close>, \<open>scheduled_date\<close>) hold ISO calendar
  dates \<open>YYYY-MM-DD\<close> with no time component. A date string is modelled by its three
  numbers, year, month and day.
\<close>

datatype isodate = ISODate int int int

text \<open>The number of days from 1970-01-01 to a day of the Gregorian calendar.\<close>

definition days_from_civil :: "int \<Rightarrow> int \<Rightarrow> int \<Rightarrow> int" where
  "days_from_civil y m d =
     (let y' = (if m \<le> 2 then y - 1 else y);
          era = y' div 400;
          yoe = y' - era * 400;
          doy = (153 * (if 2 < m then m - 3 else m + 9) + 2) div 5 + d - 1;
          doe = yoe * 365 + yoe div 4 - yoe div 100 + doy
      in era * 146097 + doe - 719468)"

text \<open>
  Modelled from the spec: \<open>parseISO\<close> and \<open>differenceInDays\<close> belong to the date-fns
  library, which is not among the sources. The specification reads
  \<open>differenceInDays(parseISO(end), parseISO(start))\<close> as "end minus start in whole days".
  A parsed date is the midnight that begins its day, counted here in whole days since
  1970-01-01.
\<close>

fun parseISO :: "isodate \<Rightarrow> int" where
  "parseISO (ISODate y m d) = days_from_civil y m d"

definition differenceInDays :: "int \<Rightarrow> int \<Rightarrow> int" where
  "differenceInDays later earlier = later - earlier"

text \<open>
  \<open>new Date(s).getTime()\<close> for a date string \<open>s\<close>: the milliseconds from the epoch to
  the midnight (UTC) that begins the day.
\<close>

definition getTime :: "isodate \<Rightarrow> int" where
  "getTime d = parseISO d * 86400000"

section \<open>Data model\<close>

text \<open>
  The entity types of \<open>lib/supabase\<close>. Each entity is a record extending the record of
  the fields that an insert supplies, so \<open>Omit<TripStop, 'id' | 'trip_id'>\<close> is
  \<open>StopData\<close> and a \<open>TripStop\<close> is a \<open>StopData\<close> with \<open>s_id\<close> and \<open>trip_id\<close>. Fields
  whose names occur in several entities carry the prefix \<open>t_\<close>, \<open>s_\<close> or \<open>a_\<close>. A type
  \<open>T | null\<close> and an optional field are both \<open>T option\<close>. JavaScript numbers are
  modelled by \<open>real\<close> (amounts) and \<open>int\<close> (order indices); rounding of IEEE doubles is
  not modelled.
\<close>

record ActivityData =
  activity_id :: "string option"
  a_name :: string
  a_description :: "string option"
  scheduled_date :: "isodate option"
  scheduled_time :: "string option"
  duration_hours :: real
  estimated_cost :: real
  a_order_index :: int
  category :: "string option"
  is_custom :: bool

record TripActivity = ActivityData +
  a_id :: string
  trip_stop_id :: string

record StopData =
  city_id :: "string option"
  city_name :: string
  country :: "string option"
  s_start_date :: "isodate option"
  s_end_date :: "isodate option"
  s_order_index :: int
  transport_cost :: real
  accommodation_cost :: real
  s_notes :: "string option"
  s_activities :: "TripActivity list option"

record TripStop = StopData +
  s_id :: string
  trip_id :: string

record TripData =
  user_id :: string
  t_name :: string
  t_description :: "string option"
  t_start_date :: "isodate option"
  t_end_date :: "isodate option"
  cover_image :: "string option"
  is_public :: bool
  share_code :: "string option"
  total_budget :: real

record Trip = TripData +
  t_id :: string
  created_at :: string
  updated_at :: string

text \<open>\<open>stop.activities || []\<close>, and the list that \<open>stop.activities?.forEach\<close> visits.\<close>

definition stop_activities :: "'a TripStop_scheme \<Rightarrow> TripActivity list" where
  "stop_activities s = (case s_activities s of None \<Rightarrow> [] | Some as \<Rightarrow> as)"

section \<open>JavaScript helpers\<close>

text \<open>\<open>x || 0\<close> on a number: the falsy number is zero.\<close>

definition or_zero :: "'a::zero \<Rightarrow> 'a" where
  "or_zero x = (if x = 0 then 0 else x)"

text \<open>\<open>String.prototype.toLowerCase\<close> on the ASCII letters; characters are bytes here.\<close>

definition toLowerChar :: "char \<Rightarrow> char" where
  "toLowerChar c =
     (if 65 \<le> (of_char c :: nat) \<and> (of_char c :: nat) \<le> 90
      then char_of ((of_char c :: nat) + 32) else c)"

definition toLowerCase :: "string \<Rightarrow> string" where
  "toLowerCase s = map toLowerChar s"

text \<open>\<open>String.prototype.includes\<close>: the needle occurs at some position of the string.\<close>

fun starts_with :: "string \<Rightarrow> string \<Rightarrow> bool" where
  "starts_with s [] = True"
| "starts_with [] (n # ns) = False"
| "starts_with (c # cs) (n # ns) = (c = n \<and> starts_with cs ns)"

fun str_includes :: "string \<Rightarrow> string \<Rightarrow> bool" where
  "str_includes [] needle = starts_with [] needle"
| "str_includes (c # cs) needle = (starts_with (c # cs) needle \<or> str_includes cs needle)"

text \<open>
  A division of two JavaScript numbers: a zero divisor gives an infinity or NaN, and
  every comparison with NaN is false.
\<close>

datatype jsnum = Finite real | PlusInfinity | MinusInfinity | NaN

definition js_div :: "real \<Rightarrow> real \<Rightarrow> jsnum" where
  "js_div a b =
     (if b \<noteq> 0 then Finite (a / b)
      else if 0 < a then PlusInfinity
      else if a < 0 then MinusInfinity
      else NaN)"

fun js_lt :: "jsnum \<Rightarrow> real \<Rightarrow> bool" where
  "js_lt (Finite x) c = (x < c)"
| "js_lt PlusInfinity c = False"
| "js_lt MinusInfinity c = True"
| "js_lt NaN c = False"

fun js_le :: "jsnum \<Rightarrow> real \<Rightarrow> bool" where
  "js_le (Finite x) c = (x \<le> c)"
| "js_le PlusInfinity c = False"
| "js_le MinusInfinity c = True"
| "js_le NaN c = False"

section \<open>Budget screen: cost breakdown\<close>

record Costs =
  transport :: real
  accommodation :: real
  activities :: real
  meals :: real

text \<open>
  The test of \<open>calculateCosts\<close> on an activity:
  \<open>activity.category?.toLowerCase().includes("food") ||
   activity.category?.toLowerCase().includes("dining")\<close>.
  On a null category both optional chains are undefined and the test is falsy.
\<close>

definition is_meal_category :: "string option \<Rightarrow> bool" where
  "is_meal_category c =
     (case c of
        None \<Rightarrow> False
      | Some s \<Rightarrow> str_includes (toLowerCase s) ''food'' \<or> str_includes (toLowerCase s) ''dining'')"

text \<open>The body of the inner \<open>forEach\<close>, on the running totals.\<close>

definition add_activity :: "Costs \<Rightarrow> TripActivity \<Rightarrow> Costs" where
  "add_activity c a =
     (let cost = or_zero (estimated_cost a)
      in if is_meal_category (category a)
         then c\<lparr>meals := meals c + cost\<rparr>
         else c\<lparr>activities := activities c + cost\<rparr>)"

text \<open>The body of the outer \<open>forEach\<close>.\<close>

definition add_stop :: "Costs \<Rightarrow> TripStop \<Rightarrow> Costs" where
  "add_stop c s =
     (let c1 = c\<lparr>transport := transport c + or_zero (transport_cost s)\<rparr>;
          c2 = c1\<lparr>accommodation := accommodation c1 + or_zero (accommodation_cost s)\<rparr>
      in foldl add_activity c2 (stop_activities s))"

text \<open>The four totals after the loop over the stops, before the meals fallback.\<close>

definition accumulate_costs :: "TripStop list \<Rightarrow> Costs" where
  "accumulate_costs stops =
     foldl add_stop \<lparr>transport = 0, accommodation = 0, activities = 0, meals = 0\<rparr> stops"

definition calculateCosts :: "TripStop list \<Rightarrow> Costs" where
  "calculateCosts stops =
     (let c = accumulate_costs stops;
          estimatedMeals = real (length stops) * 1500
      in c\<lparr>meals := (if meals c = 0 then estimatedMeals else meals c)\<rparr>)"

definition totalEstimated :: "Costs \<Rightarrow> real" where
  "totalEstimated costs = transport costs + accommodation costs + activities costs + meals costs"

text \<open>
  \<open>averagePerDay\<close> of the budget screen: zero unless both trip dates are set, otherwise
  the total over \<open>Math.max(1, Math.ceil(ms / 86400000))\<close>.
\<close>

definition averagePerDay :: "'a Trip_scheme \<Rightarrow> TripStop list \<Rightarrow> real" where
  "averagePerDay trip stops =
     (case t_start_date trip of
        None \<Rightarrow> 0
      | Some s \<Rightarrow>
         (case t_end_date trip of
            None \<Rightarrow> 0
          | Some e \<Rightarrow>
              totalEstimated (calculateCosts stops) /
                real_of_int (max 1 (\<lceil>real_of_int (getTime e - getTime s) / 86400000\<rceil>))))"

text \<open>
  \<open>tripDuration\<close> of the trip view and of the summary panel: the inclusive number of
  days when both dates are set, otherwise zero.
\<close>

definition tripDuration :: "'a Trip_scheme \<Rightarrow> int" where
  "tripDuration trip =
     (case t_start_date trip of
        None \<Rightarrow> 0
      | Some s \<Rightarrow>
         (case t_end_date trip of
            None \<Rightarrow> 0
          | Some e \<Rightarrow> differenceInDays (parseISO e) (parseISO s) + 1))"

section \<open>Summary panel: trip pace\<close>

datatype pace = Planning | Relaxed | Balanced | Packed

text \<open>
  \<open>calculateTripPace\<close>, reduced to the label of the record it returns (colour and icon
  are fixed per label).
\<close>

definition calculateTripPace :: "'a Trip_scheme \<Rightarrow> TripStop list \<Rightarrow> pace" where
  "calculateTripPace trip stops =
     (case t_start_date trip of
        None \<Rightarrow> Planning
      | Some s \<Rightarrow>
         (case t_end_date trip of
            None \<Rightarrow> Planning
          | Some e \<Rightarrow>
              if length stops = 0 then Planning
              else
                let totalDays = differenceInDays (parseISO e) (parseISO s) + 1;
                    totalActivities =
                      foldl (\<lambda>sum stop. sum + or_zero (length (stop_activities stop))) 0 stops;
                    activitiesPerDay = js_div (real totalActivities) (real_of_int totalDays)
                in if js_lt activitiesPerDay 2 then Relaxed
                   else if js_le activitiesPerDay 4 then Balanced
                   else Packed))"

section \<open>Derived notions and sample data used in the statements\<close>

text \<open>All activities of a list of stops, in the order in which the loops visit them.\<close>

definition all_activities :: "TripStop list \<Rightarrow> TripActivity list" where
  "all_activities stops = concat (map stop_activities stops)"

definition mk_activity :: "string \<Rightarrow> string \<Rightarrow> string \<Rightarrow> real \<Rightarrow> string option \<Rightarrow> isodate option \<Rightarrow> TripActivity" where
  "mk_activity i sid n cost cat d =
     \<lparr>activity_id = None, a_name = n, a_description = None, scheduled_date = d,
      scheduled_time = None, duration_hours = 1, estimated_cost = cost, a_order_index = 0,
      category = cat, is_custom = True, a_id = i, trip_stop_id = sid\<rparr>"

definition mk_stop :: "string \<Rightarrow> string \<Rightarrow> string \<Rightarrow> int \<Rightarrow> isodate option \<Rightarrow> isodate option \<Rightarrow> real \<Rightarrow> real \<Rightarrow> TripActivity list \<Rightarrow> TripStop" where
  "mk_stop i tid city oi sd ed tc ac as =
     \<lparr>city_id = None, city_name = city, country = None, s_start_date = sd, s_end_date = ed,
      s_order_index = oi, transport_cost = tc, accommodation_cost = ac, s_notes = None,
      s_activities = Some as, s_id = i, trip_id = tid\<rparr>"

definition mk_trip :: "string \<Rightarrow> string \<Rightarrow> string \<Rightarrow> isodate option \<Rightarrow> isodate option \<Rightarrow> string option \<Rightarrow> bool \<Rightarrow> real \<Rightarrow> Trip" where
  "mk_trip i uid n sd ed code pub budget =
     \<lparr>user_id = uid, t_name = n, t_description = None, t_start_date = sd, t_end_date = ed,
      cover_image = None, is_public = pub, share_code = code, total_budget = budget,
      t_id = i, created_at = ''2024-01-01T00:00:00Z'', updated_at = ''2024-01-01T00:00:00Z''\<rparr>"

definition sightseeing_stop :: TripStop where
  "sightseeing_stop =
     mk_stop ''s1'' ''t1'' ''Jaipur'' 0 (Some (ISODate 2024 1 1)) (Some (ISODate 2024 1 2)) 1000 2000
       [mk_activity ''a1'' ''s1'' ''Fort tour'' 500 (Some ''Sightseeing'') None]"


definition uncategorised_stop :: TripStop where
  "uncategorised_stop =
     mk_stop ''s1'' ''t1'' ''Pune'' 0 None None 0 0
       [mk_activity ''a1'' ''s1'' ''Walk'' 300 None None,
        mk_activity ''a2'' ''s1'' ''Lunch'' 200 None None]"

definition three_day_trip :: Trip where
  "three_day_trip =
     mk_trip ''t1'' ''u1'' ''Rajasthan'' (Some (ISODate 2024 1 1)) (Some (ISODate 2024 1 3))
       None False 0"

definition undated_trip :: Trip where
  "undated_trip = mk_trip ''t1'' ''u1'' ''Rajasthan'' None None None False 0"

definition same_day_trip :: Trip where
  "same_day_trip =
     mk_trip ''t1'' ''u1'' ''Rajasthan'' (Some (ISODate 2024 1 1)) (Some (ISODate 2024 1 1))
       None False 0"

definition stop_with :: "nat \<Rightarrow> TripStop" where
  "stop_with n =
     mk_stop ''s1'' ''t1'' ''Jaipur'' 0 None None 0 0
       (replicate n (mk_activity ''a1'' ''s1'' ''Visit'' 0 None None))"

text \<open>The formula of the specification for the average daily cost.\<close>

definition spec_averageDailyCost :: "'a Trip_scheme \<Rightarrow> TripStop list \<Rightarrow> real" where
  "spec_averageDailyCost trip stops =
     totalEstimated (calculateCosts stops) / real_of_int (max 1 (tripDuration trip))"


section \<open>Conflict alerts: activities outside the dates of their stop\<close>

text \<open>
  Modelled from the spec: \<open>isWithinInterval\<close> belongs to the date-fns library, which is
  not among the sources. The specification reads the test as "the date falls outside
  the inclusive interval from the start date to the end date of the stop"; the library
  documents the function as including both ends. For an interval whose end is before
  its start the answer of the library depends on its version (older versions throw,
  newer ones swap the two ends), so the statements about this function are made for
  intervals whose ends are in order.
\<close>

definition isWithinInterval :: "int \<Rightarrow> int \<Rightarrow> int \<Rightarrow> bool" where
  "isWithinInterval date start end = (start \<le> date \<and> date \<le> end)"

datatype alert_type = BudgetAlert | ActivitiesAlert | DateAlert

datatype alert_severity = Warning | Error

text \<open>An alert without its icon, which is a fixed element per alert type.\<close>

record Alert =
  alert_type :: alert_type
  message :: string
  severity :: alert_severity

definition date_alert :: "TripStop \<Rightarrow> TripActivity \<Rightarrow> Alert" where
  "date_alert stop activity =
     \<lparr>alert_type = DateAlert,
      message = ''Activity '' @ [CHR 0x22] @ a_name activity @ [CHR 0x22] @ '' in '' @
                city_name stop @ '' is scheduled outside city dates'',
      severity = Error\<rparr>"

text \<open>The body of the inner \<open>forEach\<close> of the third pass, on the list of alerts so far.\<close>

definition check_activity_date :: "TripStop \<Rightarrow> int \<Rightarrow> int \<Rightarrow> Alert list \<Rightarrow> TripActivity \<Rightarrow> Alert list" where
  "check_activity_date stop stopStart stopEnd alerts activity =
     (case scheduled_date activity of
        None \<Rightarrow> alerts
      | Some d \<Rightarrow>
          let activityDate = parseISO d
          in if \<not> isWithinInterval activityDate stopStart stopEnd
             then alerts @ [date_alert stop activity]
             else alerts)"

text \<open>The body of the outer \<open>forEach\<close> of the third pass.\<close>

definition check_stop_dates :: "Alert list \<Rightarrow> TripStop \<Rightarrow> Alert list" where
  "check_stop_dates alerts stop =
     (case s_activities stop of
        None \<Rightarrow> alerts
      | Some acts \<Rightarrow>
         (case s_start_date stop of
            None \<Rightarrow> alerts
          | Some sd \<Rightarrow>
             (case s_end_date stop of
                None \<Rightarrow> alerts
              | Some ed \<Rightarrow>
                  foldl (check_activity_date stop (parseISO sd) (parseISO ed)) alerts acts)))"

text \<open>
  The alerts that the third pass of \<open>ConflictAlerts\<close> appends. The first two passes push
  alerts of the types budget and activities only.
\<close>

definition dateAlerts :: "TripStop list \<Rightarrow> Alert list" where
  "dateAlerts stops = foldl check_stop_dates [] stops"

text \<open>
  An activity is scheduled outside its stop: the stop has both dates, the activity has a
  scheduled date, and that date is before the start date or after the end date.
\<close>

definition scheduled_outside :: "TripStop \<Rightarrow> TripActivity \<Rightarrow> bool" where
  "scheduled_outside stop activity =
     (case (s_start_date stop, s_end_date stop, scheduled_date activity) of
        (Some sd, Some ed, Some d) \<Rightarrow> parseISO d < parseISO sd \<or> parseISO ed < parseISO d
      | _ \<Rightarrow> False)"

text \<open>The dates of a stop are in order: when both are set, the end is not before the start.\<close>

definition dates_in_order :: "TripStop \<Rightarrow> bool" where
  "dates_in_order stop =
     (case (s_start_date stop, s_end_date stop) of
        (Some sd, Some ed) \<Rightarrow> parseISO sd \<le> parseISO ed
      | _ \<Rightarrow> True)"

definition new_year_stop :: "isodate \<Rightarrow> TripStop" where
  "new_year_stop d =
     mk_stop ''s1'' ''t1'' ''Goa'' 0 (Some (ISODate 2024 1 1)) (Some (ISODate 2024 1 2)) 0 0
       [mk_activity ''a1'' ''s1'' ''Beach'' 0 None (Some d)]"


section \<open>The entity store\<close>

text \<open>
  Modelled from the spec: the persistence backend (the Supabase client and its tables)
  is not among the sources. Following the interface of the specification, an insert
  returns the created record with an identifier assigned by the store (and timestamps
  for a trip), an update changes the rows selected by an equality filter, and a lookup
  filters by equality. Every operation succeeds. The store keeps its rows in insertion
  order; \<open>next_id\<close> numbers the identifiers handed out so far and \<open>clock\<close> is the
  timestamp it writes. Columns that an insert leaves out get the default null or zero.
\<close>

record Store =
  trips :: "Trip list"
  trip_stops :: "TripStop list"
  trip_activities :: "TripActivity list"
  next_id :: nat
  clock :: string

definition new_id :: "nat \<Rightarrow> string" where
  "new_id n = CHR ''#'' # replicate n (CHR ''i'')"

definition insert_trip :: "TripData \<Rightarrow> Store \<Rightarrow> Trip \<times> Store" where
  "insert_trip payload s =
     (let created = TripData.extend payload (Trip.fields (new_id (next_id s)) (clock s) (clock s))
      in (created, s\<lparr>trips := trips s @ [created], next_id := Suc (next_id s)\<rparr>))"

definition insert_trip_stop :: "StopData \<Rightarrow> string \<Rightarrow> Store \<Rightarrow> TripStop \<times> Store" where
  "insert_trip_stop payload tid s =
     (let created = StopData.extend payload (TripStop.fields (new_id (next_id s)) tid)
      in (created, s\<lparr>trip_stops := trip_stops s @ [created], next_id := Suc (next_id s)\<rparr>))"

definition insert_trip_activity :: "Store \<Rightarrow> ActivityData \<times> string \<Rightarrow> Store" where
  "insert_trip_activity s payload =
     (let created = ActivityData.extend (fst payload)
                      (TripActivity.fields (new_id (next_id s)) (snd payload))
      in s\<lparr>trip_activities := trip_activities s @ [created], next_id := Suc (next_id s)\<rparr>)"

text \<open>An insert of an array of rows.\<close>

definition insert_trip_activities :: "(ActivityData \<times> string) list \<Rightarrow> Store \<Rightarrow> Store" where
  "insert_trip_activities payloads s = foldl insert_trip_activity s payloads"

text \<open>\<open>.update({ share_code, is_public }).eq("id", id)\<close> on the trips.\<close>

definition update_trip_sharing :: "string \<Rightarrow> string \<Rightarrow> bool \<Rightarrow> Store \<Rightarrow> Store" where
  "update_trip_sharing tid code pub s =
     s\<lparr>trips := map (\<lambda>t. if t_id t = tid then t\<lparr>share_code := Some code, is_public := pub\<rparr> else t)
                  (trips s)\<rparr>"

text \<open>\<open>.update({ order_index }).eq("id", id)\<close> on the stops.\<close>

definition update_stop_order_index :: "string \<Rightarrow> int \<Rightarrow> Store \<Rightarrow> Store" where
  "update_stop_order_index sid v s =
     s\<lparr>trip_stops := map (\<lambda>r. if s_id r = sid then r\<lparr>s_order_index := v\<rparr> else r)
                       (trip_stops s)\<rparr>"

text \<open>\<open>.delete().eq("id", id)\<close> on the stops.\<close>

definition delete_trip_stop :: "string \<Rightarrow> Store \<Rightarrow> Store" where
  "delete_trip_stop sid s = s\<lparr>trip_stops := filter (\<lambda>r. s_id r \<noteq> sid) (trip_stops s)\<rparr>"

text \<open>\<open>.single()\<close>: the row when the filter selects exactly one, otherwise no data.\<close>

definition single :: "'a list \<Rightarrow> 'a option" where
  "single rows = (case rows of [r] \<Rightarrow> Some r | _ \<Rightarrow> None)"

text \<open>The order indices in use among the stops of one trip, as stored.\<close>

definition order_indices_of_trip :: "string \<Rightarrow> Store \<Rightarrow> int list" where
  "order_indices_of_trip tid s = map s_order_index (filter (\<lambda>r. trip_id r = tid) (trip_stops s))"

section \<open>Sharing a trip\<close>

text \<open>
  A string is truthy when it is present and not empty.
\<close>

definition truthy_string :: "string option \<Rightarrow> bool" where
  "truthy_string v = (case v of None \<Rightarrow> False | Some s \<Rightarrow> s \<noteq> [])"

text \<open>
  \<open>handleShare\<close> of the trip view. \<open>random n\<close> is the code that the \<open>n\<close>-th evaluation of
  \<open>Math.random().toString(36).substring(2, 10)\<close> yields during the call, \<open>origin\<close> is
  \<open>window.location.origin\<close>. The result is the text copied to the clipboard and the
  store; the \<open>trip\<close> prop of the component is not refreshed by the update.
\<close>

definition handleShare :: "(nat \<Rightarrow> string) \<Rightarrow> string \<Rightarrow> Trip \<Rightarrow> Store \<Rightarrow> string \<times> Store" where
  "handleShare random origin trip s =
     (let drawn = (if \<not> truthy_string (share_code trip) then 1 else 0 :: nat);
          s1 = (if \<not> truthy_string (share_code trip)
                then update_trip_sharing (t_id trip) (random 0) True s
                else s);
          shareCode = (case share_code trip of
                         None \<Rightarrow> random drawn
                       | Some c \<Rightarrow> if c \<noteq> [] then c else random drawn);
          url = origin @ ''?share='' @ shareCode
      in (url, s1))"

text \<open>
  The trip lookup of \<open>loadSharedTrip\<close>:
  \<open>.eq("share_code", shareCode).eq("is_public", true).single()\<close>.
\<close>

definition loadSharedTrip :: "string \<Rightarrow> Store \<Rightarrow> Trip option" where
  "loadSharedTrip shareCode s =
     single (filter (\<lambda>t. share_code t = Some shareCode \<and> is_public t = True) (trips s))"

definition unshared_trip :: Trip where
  "unshared_trip = mk_trip ''t1'' ''u1'' ''Kerala'' None None None False 0"

definition private_trip :: Trip where
  "private_trip = mk_trip ''t2'' ''u1'' ''Ladakh'' None None (Some ''k3x9q2ab'') False 0"

definition sharing_store :: Store where
  "sharing_store =
     \<lparr>trips = [unshared_trip, private_trip], trip_stops = [], trip_activities = [],
      next_id = 0, clock = ''2024-01-01T00:00:00Z''\<rparr>"

definition two_codes :: "nat \<Rightarrow> string" where
  "two_codes n = (if n = 0 then ''aaaaaaaa'' else ''bbbbbbbb'')"

section \<open>Adding stops\<close>

text \<open>The form state \<open>newStop\<close> of the trip builder; an empty date field is \<open>None\<close>.\<close>

record NewStopForm =
  f_city_name :: string
  f_country :: string
  f_start_date :: "isodate option"
  f_end_date :: "isodate option"

text \<open>\<open>String.prototype.trim\<close> leaves nothing exactly when every character is white space.\<close>

definition is_space :: "char \<Rightarrow> bool" where
  "is_space c = (c = CHR '' '' \<or> c = CHR 0x09 \<or> c = CHR 0x0A \<or> c = CHR 0x0B \<or>
                 c = CHR 0x0C \<or> c = CHR 0x0D)"

definition trim_is_empty :: "string \<Rightarrow> bool" where
  "trim_is_empty s = list_all is_space s"

text \<open>
  \<open>handleAddStop\<close> of the trip builder, on the component's list of stops and the store.
  The new stop gets the length of the component's list as its order index.
\<close>

definition handleAddStop :: "Trip option \<Rightarrow> NewStopForm \<Rightarrow> TripStop list \<times> Store \<Rightarrow> TripStop list \<times> Store" where
  "handleAddStop trip newStop st =
     (case trip of
        None \<Rightarrow> st
      | Some t \<Rightarrow>
          if trim_is_empty (f_city_name newStop) then st
          else
            let stops = fst st;
                payload = \<lparr>city_id = None, city_name = f_city_name newStop,
                           country = Some (f_country newStop),
                           s_start_date = f_start_date newStop, s_end_date = f_end_date newStop,
                           s_order_index = int (length stops),
                           transport_cost = 0, accommodation_cost = 0, s_notes = None,
                           s_activities = None\<rparr>;
                (created, s') = insert_trip_stop payload (t_id t) (snd st)
            in (stops @ [created\<lparr>s_activities := Some []\<rparr>], s'))"

text \<open>\<open>handleDeleteStop\<close> of the trip builder; the remaining stops keep their indices.\<close>

definition handleDeleteStop :: "string \<Rightarrow> TripStop list \<times> Store \<Rightarrow> TripStop list \<times> Store" where
  "handleDeleteStop stopId st =
     (filter (\<lambda>r. s_id r \<noteq> stopId) (fst st), delete_trip_stop stopId (snd st))"

text \<open>
  The tourist spot and the destination of the suggestions screen, with the fields that
  \<open>handleAddSpot\<close> reads.
\<close>

record TouristSpot =
  spot_name :: string
  spot_description :: string
  spot_category :: string
  estimatedCost :: real
  duration :: string

record DestinationData =
  destination :: string
  dest_country :: string

text \<open>\<open>destinationData?.destination || searchQuery\<close>.\<close>

definition destination_or_query :: "DestinationData option \<Rightarrow> string \<Rightarrow> string" where
  "destination_or_query destinationData searchQuery =
     (case destinationData of
        None \<Rightarrow> searchQuery
      | Some d \<Rightarrow> if destination d \<noteq> [] then destination d else searchQuery)"

text \<open>
  \<open>handleAddSpot\<close> of the suggestions screen. \<open>parseFloat\<close> is the JavaScript function,
  taken as a parameter (\<open>None\<close> for NaN). A stop created here always gets order index 0.
\<close>

definition handleAddSpot :: "(string \<Rightarrow> real option) \<Rightarrow> Trip option \<Rightarrow> DestinationData option \<Rightarrow> string \<Rightarrow> TouristSpot \<Rightarrow> Store \<Rightarrow> Store" where
  "handleAddSpot parseFloat trip destinationData searchQuery spot s =
     (case trip of
        None \<Rightarrow> s
      | Some t \<Rightarrow>
          let city = destination_or_query destinationData searchQuery;
              existingStops = single (filter (\<lambda>r. trip_id r = t_id t \<and> city_name r = city)
                                        (trip_stops s));
              existingId = map_option s_id existingStops;
              (stopId, s1) =
                (if \<not> truthy_string existingId
                 then
                   let (newStop, s') = insert_trip_stop
                         \<lparr>city_id = None, city_name = city,
                          country = Some (case destinationData of None \<Rightarrow> ''India''
                                          | Some d \<Rightarrow> if dest_country d \<noteq> [] then dest_country d
                                                      else ''India''),
                          s_start_date = None, s_end_date = None, s_order_index = 0,
                          transport_cost = 0, accommodation_cost = 0, s_notes = None,
                          s_activities = None\<rparr> (t_id t) s
                   in (s_id newStop, s')
                 else (case existingId of Some i \<Rightarrow> (i, s) | None \<Rightarrow> ([], s)))
          in insert_trip_activity s1
               (\<lparr>activity_id = None, a_name = spot_name spot,
                 a_description = Some (spot_description spot),
                 scheduled_date = None, scheduled_time = None,
                 duration_hours = (case parseFloat (duration spot) of
                                     None \<Rightarrow> 3 | Some h \<Rightarrow> if h = 0 then 3 else h),
                 estimated_cost = estimatedCost spot, a_order_index = 0,
                 category = Some (spot_category spot), is_custom = True\<rparr>, stopId))"

definition goa_trip :: Trip where
  "goa_trip = mk_trip ''t1'' ''u1'' ''West coast'' None None None False 0"

definition goa_store :: Store where
  "goa_store =
     \<lparr>trips = [goa_trip],
      trip_stops = [mk_stop ''s1'' ''t1'' ''Goa'' 0 None None 0 0 []],
      trip_activities = [], next_id = 0, clock = ''2024-01-01T00:00:00Z''\<rparr>"

definition fort_spot :: TouristSpot where
  "fort_spot =
     \<lparr>spot_name = ''Gateway of India'', spot_description = ''Waterfront arch'',
      spot_category = ''Historical'', estimatedCost = 0, duration = ''2 hours''\<rparr>"

definition no_float :: "string \<Rightarrow> real option" where
  "no_float s = None"

definition three_stops :: "TripStop list" where
  "three_stops =
     [mk_stop ''s1'' ''t1'' ''Goa'' 0 None None 0 0 [],
      mk_stop ''s2'' ''t1'' ''Pune'' 1 None None 0 0 [],
      mk_stop ''s3'' ''t1'' ''Mumbai'' 2 None None 0 0 []]"

definition three_stop_store :: Store where
  "three_stop_store =
     \<lparr>trips = [goa_trip], trip_stops = three_stops, trip_activities = [], next_id = 0,
      clock = ''2024-01-01T00:00:00Z''\<rparr>"

definition delhi_form :: NewStopForm where
  "delhi_form = \<lparr>f_city_name = ''Delhi'', f_country = ''India'', f_start_date = None,
                 f_end_date = None\<rparr>"


section \<open>Reordering stops\<close>

text \<open>
  The component state of the trip builder that \<open>handleReorderStop\<close> works on. The array
  \<open>stops\<close> holds references to stop objects; \<open>[...stops]\<close> copies the references, not
  the objects, so the assignments to \<open>updatedStops[i].order_index\<close> change the objects
  that \<open>stops\<close> refers to as well. \<open>b_stops\<close> is the array of references, \<open>b_heap\<close> maps
  a reference to its object, \<open>b_store\<close> is the store.
\<close>

record BuilderState =
  b_stops :: "nat list"
  b_heap :: "nat \<Rightarrow> TripStop"
  b_store :: Store

datatype direction = Up | Down

text \<open>\<open>Array.prototype.findIndex\<close>, which answers -1 when no element satisfies the test.\<close>

fun findIndex :: "('a \<Rightarrow> bool) \<Rightarrow> 'a list \<Rightarrow> int" where
  "findIndex P [] = - 1"
| "findIndex P (x # xs) =
     (if P x then 0 else (let i = findIndex P xs in if i = - 1 then - 1 else i + 1))"

text \<open>
  \<open>handleReorderStop\<close>. The two updates are sent together and both succeed in the model
  of the store, so the branch for a failed update is not taken.
\<close>

definition handleReorderStop :: "Trip option \<Rightarrow> string \<Rightarrow> direction \<Rightarrow> BuilderState \<Rightarrow> BuilderState" where
  "handleReorderStop trip stopId dir st =
     (case trip of
        None \<Rightarrow> st
      | Some t \<Rightarrow>
          let stops = b_stops st;
              h = b_heap st;
              currentIndex = findIndex (\<lambda>r. s_id (h r) = stopId) stops
          in if currentIndex = - 1 then st
             else
               let newIndex = (if dir = Up then currentIndex - 1 else currentIndex + 1)
               in if newIndex < 0 \<or> int (length stops) \<le> newIndex then st
                  else
                    let cur = stops ! nat currentIndex;
                        new = stops ! nat newIndex;
                        temp = s_order_index (h cur);
                        h1 = h(cur := (h cur)\<lparr>s_order_index := s_order_index (h new)\<rparr>);
                        h2 = h1(new := (h1 new)\<lparr>s_order_index := temp\<rparr>);
                        db1 = update_stop_order_index stopId (s_order_index (h2 cur)) (b_store st);
                        db2 = update_stop_order_index (s_id (h2 new)) (s_order_index (h2 new)) db1;
                        reordered = stops[nat currentIndex := stops ! nat newIndex,
                                          nat newIndex := stops ! nat currentIndex]
                    in \<lparr>b_stops = reordered, b_heap = h2, b_store = db2\<rparr>)"

text \<open>The stops as the component shows them: the objects of the array, in order.\<close>

definition shown_stops :: "BuilderState \<Rightarrow> TripStop list" where
  "shown_stops st = map (b_heap st) (b_stops st)"

text \<open>
  The component state mirrors the store: a stored row with the identifier of a shown stop
  has that stop's order index.
\<close>

definition mirrors_store :: "BuilderState \<Rightarrow> bool" where
  "mirrors_store st =
     list_all (\<lambda>row. list_all (\<lambda>s. s_id row = s_id s \<longrightarrow> s_order_index row = s_order_index s)
                         (shown_stops st))
              (trip_stops (b_store st))"

definition builder_example :: BuilderState where
  "builder_example =
     \<lparr>b_stops = [0, 1, 2],
      b_heap = (\<lambda>r. three_stops ! 0)(1 := three_stops ! 1, 2 := three_stops ! 2),
      b_store = three_stop_store\<rparr>"


section \<open>Export and import of a trip\<close>

text \<open>
  The values that \<open>JSON.parse\<close> yields. An object is the list of its entries, looked up
  by key. \<open>JDate d\<close> is the string \<open>YYYY-MM-DD\<close> of the date \<open>d\<close>, kept apart from other
  strings because date columns are modelled by their numbers; it is never empty.
\<close>

datatype json =
    JNull
  | JBool bool
  | JNum real
  | JStr string
  | JDate isodate
  | JArr "json list"
  | JObj "(string \<times> json) list"

text \<open>
  Reading a property: \<open>None\<close> is \<open>undefined\<close>. Only named properties of records are read
  in this code, which an array or a primitive value does not have.
\<close>

definition get_prop :: "json \<Rightarrow> string \<Rightarrow> json option" where
  "get_prop v k = (case v of JObj entries \<Rightarrow> map_of entries k | _ \<Rightarrow> None)"

fun truthy :: "json option \<Rightarrow> bool" where
  "truthy None = False"
| "truthy (Some JNull) = False"
| "truthy (Some (JBool b)) = b"
| "truthy (Some (JNum x)) = (x \<noteq> 0)"
| "truthy (Some (JStr s)) = (s \<noteq> [])"
| "truthy (Some (JDate d)) = True"
| "truthy (Some (JArr xs)) = True"
| "truthy (Some (JObj entries)) = True"

text \<open>\<open>typeof v === 'object'\<close>, which holds of null, arrays and objects.\<close>

fun typeof_object :: "json option \<Rightarrow> bool" where
  "typeof_object (Some JNull) = True"
| "typeof_object (Some (JArr xs)) = True"
| "typeof_object (Some (JObj entries)) = True"
| "typeof_object v = False"

text \<open>\<open>typeof v === 'string'\<close>.\<close>

fun typeof_string :: "json option \<Rightarrow> bool" where
  "typeof_string (Some (JStr s)) = True"
| "typeof_string (Some (JDate d)) = True"
| "typeof_string v = False"

fun isArray :: "json option \<Rightarrow> bool" where
  "isArray (Some (JArr xs)) = True"
| "isArray v = False"

definition validateImportedData :: "json \<Rightarrow> bool" where
  "validateImportedData data =
     (if \<not> truthy (Some data) \<or> \<not> typeof_object (Some data) then False
      else if \<not> truthy (get_prop data ''trip'') \<or> \<not> typeof_object (get_prop data ''trip'')
      then False
      else if \<not> isArray (get_prop data ''stops'') then False
      else if \<not> isArray (get_prop data ''activities'') then False
      else
        let name = (case get_prop data ''trip'' of None \<Rightarrow> None | Some t \<Rightarrow> get_prop t ''name'')
        in if \<not> truthy name \<or> \<not> typeof_string name then False
           else True)"

text \<open>
  The file handed to \<open>importTrip\<close>: reading it fails, or it has a text that \<open>JSON.parse\<close>
  rejects (\<open>None\<close>) or parses.
\<close>

datatype file_content = Unreadable | Text "json option"

definition importTrip :: "file_content \<Rightarrow> json option" where
  "importTrip file =
     (case file of
        Unreadable \<Rightarrow> None
      | Text None \<Rightarrow> None
      | Text (Some data) \<Rightarrow> if validateImportedData data then Some data else None)"

record ExportedTrip =
  doc_version :: string
  doc_trip :: Trip
  doc_stops :: "TripStop list"
  doc_activities :: "TripActivity list"
  doc_exportedAt :: string

definition EXPORT_VERSION :: string where
  "EXPORT_VERSION = ''1.0''"

subsection \<open>Records as JSON\<close>

definition json_of_string_option :: "string option \<Rightarrow> json" where
  "json_of_string_option v = (case v of None \<Rightarrow> JNull | Some s \<Rightarrow> JStr s)"

definition json_of_date_option :: "isodate option \<Rightarrow> json" where
  "json_of_date_option v = (case v of None \<Rightarrow> JNull | Some d \<Rightarrow> JDate d)"

text \<open>What \<open>JSON.stringify\<close> writes for an activity, a stop, a trip and the document.\<close>

definition json_of_activity :: "TripActivity \<Rightarrow> json" where
  "json_of_activity a =
     JObj [(''id'', JStr (a_id a)),
           (''trip_stop_id'', JStr (trip_stop_id a)),
           (''activity_id'', json_of_string_option (activity_id a)),
           (''name'', JStr (a_name a)),
           (''description'', json_of_string_option (a_description a)),
           (''scheduled_date'', json_of_date_option (scheduled_date a)),
           (''scheduled_time'', json_of_string_option (scheduled_time a)),
           (''duration_hours'', JNum (duration_hours a)),
           (''estimated_cost'', JNum (estimated_cost a)),
           (''order_index'', JNum (real_of_int (a_order_index a))),
           (''category'', json_of_string_option (category a)),
           (''is_custom'', JBool (is_custom a))]"

text \<open>An undefined \<open>activities\<close> property of a stop is left out of the text.\<close>

definition json_of_stop :: "TripStop \<Rightarrow> json" where
  "json_of_stop s =
     JObj ([(''id'', JStr (s_id s)),
            (''trip_id'', JStr (trip_id s)),
            (''city_id'', json_of_string_option (city_id s)),
            (''city_name'', JStr (city_name s)),
            (''country'', json_of_string_option (country s)),
            (''start_date'', json_of_date_option (s_start_date s)),
            (''end_date'', json_of_date_option (s_end_date s)),
            (''order_index'', JNum (real_of_int (s_order_index s))),
            (''transport_cost'', JNum (transport_cost s)),
            (''accommodation_cost'', JNum (accommodation_cost s)),
            (''notes'', json_of_string_option (s_notes s))] @
           (case s_activities s of
              None \<Rightarrow> []
            | Some as \<Rightarrow> [(''activities'', JArr (map json_of_activity as))]))"

definition json_of_trip :: "Trip \<Rightarrow> json" where
  "json_of_trip t =
     JObj [(''id'', JStr (t_id t)),
           (''user_id'', JStr (user_id t)),
           (''name'', JStr (t_name t)),
           (''description'', json_of_string_option (t_description t)),
           (''start_date'', json_of_date_option (t_start_date t)),
           (''end_date'', json_of_date_option (t_end_date t)),
           (''cover_image'', json_of_string_option (cover_image t)),
           (''is_public'', JBool (is_public t)),
           (''share_code'', json_of_string_option (share_code t)),
           (''total_budget'', JNum (total_budget t)),
           (''created_at'', JStr (created_at t)),
           (''updated_at'', JStr (updated_at t))]"

definition json_of_document :: "ExportedTrip \<Rightarrow> json" where
  "json_of_document d =
     JObj [(''version'', JStr (doc_version d)),
           (''trip'', json_of_trip (doc_trip d)),
           (''stops'', JArr (map json_of_stop (doc_stops d))),
           (''activities'', JArr (map json_of_activity (doc_activities d))),
           (''exportedAt'', JStr (doc_exportedAt d))]"

text \<open>
  \<open>exportTrip\<close>: the value whose text is written to the downloaded file, \<open>now\<close> being
  the time of the export. Parsing the text of a value gives the value back.
\<close>

definition exportTrip :: "string \<Rightarrow> Trip \<Rightarrow> TripStop list \<Rightarrow> TripActivity list \<Rightarrow> json" where
  "exportTrip now trip stops acts =
     json_of_document
       \<lparr>doc_version = EXPORT_VERSION, doc_trip = trip, doc_stops = stops,
        doc_activities = acts, doc_exportedAt = now\<rparr>"

subsection \<open>JSON read as records\<close>

text \<open>
  The type guard \<open>data is ExportedTrip\<close> lets the code after the validation read the
  parsed value as a document of typed records. The functions below read each property
  at its declared type. A property that is missing or of another type reads as null,
  zero, false, the empty string or no array; the code would carry the foreign value
  along instead, and no statement below depends on such documents.
\<close>

definition string_of_json :: "json option \<Rightarrow> string" where
  "string_of_json v = (case v of Some (JStr s) \<Rightarrow> s | _ \<Rightarrow> [])"

definition string_option_of_json :: "json option \<Rightarrow> string option" where
  "string_option_of_json v = (case v of Some (JStr s) \<Rightarrow> Some s | _ \<Rightarrow> None)"

definition date_option_of_json :: "json option \<Rightarrow> isodate option" where
  "date_option_of_json v = (case v of Some (JDate d) \<Rightarrow> Some d | _ \<Rightarrow> None)"

definition number_of_json :: "json option \<Rightarrow> real" where
  "number_of_json v = (case v of Some (JNum x) \<Rightarrow> x | _ \<Rightarrow> 0)"

definition integer_of_json :: "json option \<Rightarrow> int" where
  "integer_of_json v = (case v of Some (JNum x) \<Rightarrow> \<lfloor>x\<rfloor> | _ \<Rightarrow> 0)"

definition bool_of_json :: "json option \<Rightarrow> bool" where
  "bool_of_json v = (case v of Some (JBool b) \<Rightarrow> b | _ \<Rightarrow> False)"

definition array_of_json :: "json option \<Rightarrow> json list" where
  "array_of_json v = (case v of Some (JArr xs) \<Rightarrow> xs | _ \<Rightarrow> [])"

definition as_TripActivity :: "json \<Rightarrow> TripActivity" where
  "as_TripActivity j =
     \<lparr>activity_id = string_option_of_json (get_prop j ''activity_id''),
      a_name = string_of_json (get_prop j ''name''),
      a_description = string_option_of_json (get_prop j ''description''),
      scheduled_date = date_option_of_json (get_prop j ''scheduled_date''),
      scheduled_time = string_option_of_json (get_prop j ''scheduled_time''),
      duration_hours = number_of_json (get_prop j ''duration_hours''),
      estimated_cost = number_of_json (get_prop j ''estimated_cost''),
      a_order_index = integer_of_json (get_prop j ''order_index''),
      category = string_option_of_json (get_prop j ''category''),
      is_custom = bool_of_json (get_prop j ''is_custom''),
      a_id = string_of_json (get_prop j ''id''),
      trip_stop_id = string_of_json (get_prop j ''trip_stop_id'')\<rparr>"

definition as_TripStop :: "json \<Rightarrow> TripStop" where
  "as_TripStop j =
     \<lparr>city_id = string_option_of_json (get_prop j ''city_id''),
      city_name = string_of_json (get_prop j ''city_name''),
      country = string_option_of_json (get_prop j ''country''),
      s_start_date = date_option_of_json (get_prop j ''start_date''),
      s_end_date = date_option_of_json (get_prop j ''end_date''),
      s_order_index = integer_of_json (get_prop j ''order_index''),
      transport_cost = number_of_json (get_prop j ''transport_cost''),
      accommodation_cost = number_of_json (get_prop j ''accommodation_cost''),
      s_notes = string_option_of_json (get_prop j ''notes''),
      s_activities = (case get_prop j ''activities'' of
                        Some (JArr xs) \<Rightarrow> Some (map as_TripActivity xs)
                      | _ \<Rightarrow> None),
      s_id = string_of_json (get_prop j ''id''),
      trip_id = string_of_json (get_prop j ''trip_id'')\<rparr>"

definition as_Trip :: "json option \<Rightarrow> Trip" where
  "as_Trip v =
     (let j = (case v of None \<Rightarrow> JNull | Some t \<Rightarrow> t)
      in \<lparr>user_id = string_of_json (get_prop j ''user_id''),
          t_name = string_of_json (get_prop j ''name''),
          t_description = string_option_of_json (get_prop j ''description''),
          t_start_date = date_option_of_json (get_prop j ''start_date''),
          t_end_date = date_option_of_json (get_prop j ''end_date''),
          cover_image = string_option_of_json (get_prop j ''cover_image''),
          is_public = bool_of_json (get_prop j ''is_public''),
          share_code = string_option_of_json (get_prop j ''share_code''),
          total_budget = number_of_json (get_prop j ''total_budget''),
          t_id = string_of_json (get_prop j ''id''),
          created_at = string_of_json (get_prop j ''created_at''),
          updated_at = string_of_json (get_prop j ''updated_at'')\<rparr>)"

definition as_ExportedTrip :: "json \<Rightarrow> ExportedTrip" where
  "as_ExportedTrip data =
     \<lparr>doc_version = string_of_json (get_prop data ''version''),
      doc_trip = as_Trip (get_prop data ''trip''),
      doc_stops = map as_TripStop (array_of_json (get_prop data ''stops'')),
      doc_activities = map as_TripActivity (array_of_json (get_prop data ''activities'')),
      doc_exportedAt = string_of_json (get_prop data ''exportedAt'')\<rparr>"

subsection \<open>Preparing and inserting\<close>

text \<open>
  The stops and activities that \<open>prepareImportedTripForInsert\<close> returns: the fields
  without the identifier and the foreign key, and the side-channel field
  \<open>_original_stop_id\<close>.
\<close>

record PreparedStop = StopData +
  s_original_stop_id :: string

record PreparedActivity = ActivityData +
  a_original_stop_id :: string

record Prepared =
  p_trip :: TripData
  p_stops :: "PreparedStop list"
  p_activities :: "PreparedActivity list"

definition prepareImportedTripForInsert :: "ExportedTrip \<Rightarrow> string \<Rightarrow> Prepared" where
  "prepareImportedTripForInsert importedData userId =
     (let trip = doc_trip importedData;
          stops = doc_stops importedData;
          acts = doc_activities importedData;
          newTrip = \<lparr>user_id = userId,
                     t_name = t_name trip @ '' (Imported)'',
                     t_description = t_description trip,
                     t_start_date = t_start_date trip,
                     t_end_date = t_end_date trip,
                     cover_image = cover_image trip,
                     is_public = False,
                     share_code = None,
                     total_budget = total_budget trip\<rparr>;
          newStops = map (\<lambda>stop. StopData.extend
                            ((StopData.truncate stop)\<lparr>s_order_index := or_zero (s_order_index stop)\<rparr>)
                            (PreparedStop.fields (s_id stop))) stops;
          newActivities = map (\<lambda>activity. ActivityData.extend
                            ((ActivityData.truncate activity)
                               \<lparr>a_order_index := or_zero (a_order_index activity)\<rparr>)
                            (PreparedActivity.fields (trip_stop_id activity))) acts
      in \<lparr>p_trip = newTrip, p_stops = newStops, p_activities = newActivities\<rparr>)"

text \<open>
  The loop of \<open>handleImport\<close> over the prepared stops: each stop is inserted without its
  side-channel field and with the identifier of the new trip, and a truthy original
  identifier is mapped to the identifier of the created stop.
\<close>

fun insert_imported_stops :: "string \<Rightarrow> PreparedStop list \<Rightarrow> (string \<rightharpoonup> string) \<times> Store \<Rightarrow> (string \<rightharpoonup> string) \<times> Store" where
  "insert_imported_stops tid [] acc = acc"
| "insert_imported_stops tid (stopData # rest) (stopIdMap, s) =
     (let (createdStop, s') = insert_trip_stop (StopData.truncate stopData) tid s;
          stopIdMap' = (if s_original_stop_id stopData \<noteq> []
                        then stopIdMap(s_original_stop_id stopData \<mapsto> s_id createdStop)
                        else stopIdMap)
      in insert_imported_stops tid rest (stopIdMap', s'))"

datatype toast = ToastError string | ToastSuccess string

text \<open>
  \<open>handleImport\<close> of the trip view: the selected file (if any), the signed-in user's
  identifier (if any), the random codes and the store. The filter before the non-null
  assertion \<open>stopIdMap.get(..)!\<close> makes the key present.
\<close>

definition handleImport :: "file_content option \<Rightarrow> string option \<Rightarrow> (nat \<Rightarrow> string) \<Rightarrow> Store \<Rightarrow> toast \<times> Store" where
  "handleImport file user random s =
     (case file of
        None \<Rightarrow> (ToastError ''Please sign in to import trips'', s)
      | Some f \<Rightarrow>
         (case user of
            None \<Rightarrow> (ToastError ''Please sign in to import trips'', s)
          | Some userId \<Rightarrow>
             (case importTrip f of
                None \<Rightarrow> (ToastError ''Invalid trip file format'', s)
              | Some importedData \<Rightarrow>
                  let prepared = prepareImportedTripForInsert (as_ExportedTrip importedData) userId;
                      (createdTrip, s1) =
                        insert_trip ((p_trip prepared)\<lparr>share_code := Some (random 0)\<rparr>) s;
                      (stopIdMap, s2) =
                        insert_imported_stops (t_id createdTrip) (p_stops prepared) (Map.empty, s1);
                      activitiesToInsert =
                        map (\<lambda>a. (ActivityData.truncate a, the (stopIdMap (a_original_stop_id a))))
                          (filter (\<lambda>a. a_original_stop_id a \<noteq> [] \<and>
                                        stopIdMap (a_original_stop_id a) \<noteq> None)
                             (p_activities prepared));
                      s3 = (if 0 < length activitiesToInsert
                            then insert_trip_activities activitiesToInsert s2 else s2)
                  in (ToastSuccess ''Trip imported successfully!'', s3))))"

text \<open>A non-empty string, as a JSON value that may be absent.\<close>

fun nonempty_string :: "json option \<Rightarrow> bool" where
  "nonempty_string (Some (JStr s)) = (s \<noteq> [])"
| "nonempty_string (Some (JDate d)) = True"
| "nonempty_string v = False"

definition document_without_stops :: json where
  "document_without_stops =
     JObj [(''version'', JStr ''1.0''),
           (''trip'', JObj [(''name'', JStr ''Goa'')]),
           (''activities'', JArr [])]"


text \<open>
  The rows that the store creates for a list of insert payloads when the first of them
  gets the identifier number \<open>n\<close>.
\<close>

fun created_stops :: "nat \<Rightarrow> string \<Rightarrow> PreparedStop list \<Rightarrow> TripStop list" where
  "created_stops n tid [] = []"
| "created_stops n tid (p # ps) =
     StopData.extend (StopData.truncate p) (TripStop.fields (new_id n) tid) #
     created_stops (Suc n) tid ps"

fun created_activities :: "nat \<Rightarrow> (ActivityData \<times> string) list \<Rightarrow> TripActivity list" where
  "created_activities n [] = []"
| "created_activities n (p # ps) =
     ActivityData.extend (fst p) (TripActivity.fields (new_id n) (snd p)) #
     created_activities (Suc n) ps"

text \<open>A trip with two stops, holding three and two activities.\<close>

definition exported_activities :: "TripActivity list" where
  "exported_activities =
     [mk_activity ''a1'' ''s1'' ''Amber Fort'' 500 (Some ''Sightseeing'') (Some (ISODate 2024 1 1)),
      mk_activity ''a2'' ''s1'' ''Bazaar lunch'' 300 (Some ''Food'') (Some (ISODate 2024 1 1)),
      mk_activity ''a3'' ''s1'' ''City Palace'' 400 None (Some (ISODate 2024 1 2)),
      mk_activity ''a4'' ''s2'' ''Lake cruise'' 800 (Some ''Leisure'') (Some (ISODate 2024 1 3)),
      mk_activity ''a5'' ''s2'' ''Rooftop dining'' 900 (Some ''Dining'') None]"

definition exported_stops :: "TripStop list" where
  "exported_stops =
     [mk_stop ''s1'' ''t1'' ''Jaipur'' 0 (Some (ISODate 2024 1 1)) (Some (ISODate 2024 1 2)) 1000 2000
        (take 3 exported_activities),
      mk_stop ''s2'' ''t1'' ''Udaipur'' 1 (Some (ISODate 2024 1 3)) (Some (ISODate 2024 1 3)) 700 1500
        (drop 3 exported_activities)]"

definition exported_trip :: Trip where
  "exported_trip =
     mk_trip ''t1'' ''u1'' ''Rajasthan'' (Some (ISODate 2024 1 1)) (Some (ISODate 2024 1 3))
       (Some ''k3x9q2ab'') True 20000"

definition empty_store :: Store where
  "empty_store =
     \<lparr>trips = [], trip_stops = [], trip_activities = [], next_id = 0,
      clock = ''2024-02-01T00:00:00Z''\<rparr>"

text \<open>The store after importing the exported sample trip as user \<open>u2\<close>.\<close>

definition imported_store :: Store where
  "imported_store =
     snd (handleImport
            (Some (Text (Some (exportTrip ''2024-02-01T00:00:00Z'' exported_trip
                                 exported_stops exported_activities))))
            (Some ''u2'') two_codes empty_store)"


section \<open>Strings and folds\<close>

lemma starts_with_iff: "starts_with s n \<longleftrightarrow> (\<exists>q. s = n @ q)"
  by (induction s n rule: starts_with.induct) auto

lemma str_includes_iff: "str_includes s n \<longleftrightarrow> (\<exists>p q. s = p @ n @ q)"
proof (induction s)
  case Nil
  then show ?case by (auto simp: starts_with_iff)
next
  case (Cons c cs)
  show ?case
  proof
    assume "str_includes (c # cs) n"
    then consider "starts_with (c # cs) n" | "str_includes cs n" by auto
    then show "\<exists>p q. c # cs = p @ n @ q"
    proof cases
      case 1
      then obtain q where "c # cs = [] @ n @ q" by (auto simp: starts_with_iff)
      then show ?thesis by blast
    next
      case 2
      then obtain p q where "cs = p @ n @ q" using Cons.IH by blast
      then have "c # cs = (c # p) @ n @ q" by simp
      then show ?thesis by blast
    qed
  next
    assume "\<exists>p q. c # cs = p @ n @ q"
    then obtain p q where pq: "c # cs = p @ n @ q" by blast
    show "str_includes (c # cs) n"
    proof (cases p)
      case Nil
      with pq have "starts_with (c # cs) n" by (auto simp: starts_with_iff)
      then show ?thesis by simp
    next
      case (Cons a p')
      with pq have "cs = p' @ n @ q" by simp
      then have "str_includes cs n" using Cons.IH by blast
      then show ?thesis by simp
    qed
  qed
qed

lemma is_meal_category_iff:
  "is_meal_category c \<longleftrightarrow>
     (\<exists>s p q. c = Some s \<and> (toLowerCase s = p @ ''food'' @ q \<or> toLowerCase s = p @ ''dining'' @ q))"
  by (cases c) (auto simp: is_meal_category_def str_includes_iff)

lemma or_zero_id [simp]: "or_zero x = x"
  by (simp add: or_zero_def)

lemma foldl_add_activity:
  "foldl add_activity c as =
     c\<lparr>activities := activities c + (\<Sum>a\<leftarrow>filter (\<lambda>a. \<not> is_meal_category (category a)) as. estimated_cost a),
       meals := meals c + (\<Sum>a\<leftarrow>filter (\<lambda>a. is_meal_category (category a)) as. estimated_cost a)\<rparr>"
  by (induction as arbitrary: c) (auto simp: add_activity_def)

lemma add_stop_eq:
  "add_stop c s =
     c\<lparr>transport := transport c + transport_cost s,
       accommodation := accommodation c + accommodation_cost s,
       activities := activities c +
         (\<Sum>a\<leftarrow>filter (\<lambda>a. \<not> is_meal_category (category a)) (stop_activities s). estimated_cost a),
       meals := meals c +
         (\<Sum>a\<leftarrow>filter (\<lambda>a. is_meal_category (category a)) (stop_activities s). estimated_cost a)\<rparr>"
  by (simp add: add_stop_def foldl_add_activity)

lemma foldl_add_stop:
  "foldl add_stop c stops =
     \<lparr>transport = transport c + (\<Sum>s\<leftarrow>stops. transport_cost s),
      accommodation = accommodation c + (\<Sum>s\<leftarrow>stops. accommodation_cost s),
      activities = activities c +
        (\<Sum>a\<leftarrow>filter (\<lambda>a. \<not> is_meal_category (category a)) (all_activities stops). estimated_cost a),
      meals = meals c +
        (\<Sum>a\<leftarrow>filter (\<lambda>a. is_meal_category (category a)) (all_activities stops). estimated_cost a)\<rparr>"
proof (induction stops arbitrary: c)
  case Nil
  then show ?case by (simp add: all_activities_def)
next
  case (Cons s stops)
  have "foldl add_stop c (s # stops) = foldl add_stop (add_stop c s) stops" by simp
  also have "\<dots> = \<lparr>transport = transport (add_stop c s) + (\<Sum>s\<leftarrow>stops. transport_cost s),
      accommodation = accommodation (add_stop c s) + (\<Sum>s\<leftarrow>stops. accommodation_cost s),
      activities = activities (add_stop c s) +
        (\<Sum>a\<leftarrow>filter (\<lambda>a. \<not> is_meal_category (category a)) (all_activities stops). estimated_cost a),
      meals = meals (add_stop c s) +
        (\<Sum>a\<leftarrow>filter (\<lambda>a. is_meal_category (category a)) (all_activities stops). estimated_cost a)\<rparr>"
    by (rule Cons.IH)
  also have "\<dots> = \<lparr>transport = transport c + (\<Sum>s\<leftarrow>s # stops. transport_cost s),
      accommodation = accommodation c + (\<Sum>s\<leftarrow>s # stops. accommodation_cost s),
      activities = activities c +
        (\<Sum>a\<leftarrow>filter (\<lambda>a. \<not> is_meal_category (category a)) (all_activities (s # stops)). estimated_cost a),
      meals = meals c +
        (\<Sum>a\<leftarrow>filter (\<lambda>a. is_meal_category (category a)) (all_activities (s # stops)). estimated_cost a)\<rparr>"
    by (simp add: add_stop_eq all_activities_def algebra_simps)
  finally show ?case .
qed

lemma accumulate_costs_eq:
  "accumulate_costs stops =
     \<lparr>transport = (\<Sum>s\<leftarrow>stops. transport_cost s),
      accommodation = (\<Sum>s\<leftarrow>stops. accommodation_cost s),
      activities =
        (\<Sum>a\<leftarrow>filter (\<lambda>a. \<not> is_meal_category (category a)) (all_activities stops). estimated_cost a),
      meals =
        (\<Sum>a\<leftarrow>filter (\<lambda>a. is_meal_category (category a)) (all_activities stops). estimated_cost a)\<rparr>"
  by (simp add: accumulate_costs_def foldl_add_stop)

lemma sightseeing_not_meal: "\<not> is_meal_category (Some ''Sightseeing'')"
  by (simp add: is_meal_category_def toLowerCase_def toLowerChar_def)

section \<open>Cost breakdown\<close>

text \<open>
  Claim C5. For every list of stops, \<open>calculateCosts\<close> returns as \<open>transport\<close> and
  \<open>accommodation\<close> the sums of the stops' \<open>transport_cost\<close> and \<open>accommodation_cost\<close>;
  the estimated cost of an activity goes to \<open>meals\<close> when its lower-cased category
  contains \<open>food\<close> or \<open>dining\<close> and to \<open>activities\<close> otherwise; and exactly when the
  meals accumulated by that pass are zero, \<open>meals\<close> is the number of stops times 1500.
  One stop with transport 1000, accommodation 2000 and one Sightseeing activity costing
  500 gives 1000, 2000, 500 and 1500, and the estimated total is the sum of the four
  fields, here 5000.
\<close>

theorem calculateCosts_breakdown:
  "transport (calculateCosts stops) = (\<Sum>s\<leftarrow>stops. transport_cost s) \<and>
   accommodation (calculateCosts stops) = (\<Sum>s\<leftarrow>stops. accommodation_cost s) \<and>
   activities (calculateCosts stops) =
     (\<Sum>a\<leftarrow>filter (\<lambda>a. \<not> is_meal_category (category a)) (all_activities stops). estimated_cost a) \<and>
   meals (calculateCosts stops) =
     (let m = (\<Sum>a\<leftarrow>filter (\<lambda>a. is_meal_category (category a)) (all_activities stops). estimated_cost a)
      in if m = 0 then real (length stops) * 1500 else m) \<and>
   (\<forall>c. is_meal_category c =
     (\<exists>s p q. c = Some s \<and>
        (toLowerCase s = p @ ''food'' @ q \<or> toLowerCase s = p @ ''dining'' @ q))) \<and>
   calculateCosts [sightseeing_stop] =
     \<lparr>transport = 1000, accommodation = 2000, activities = 500, meals = 1500\<rparr> \<and>
   totalEstimated (calculateCosts [sightseeing_stop]) = 5000 \<and>
   totalEstimated (calculateCosts stops) =
     transport (calculateCosts stops) + accommodation (calculateCosts stops) +
     activities (calculateCosts stops) + meals (calculateCosts stops)"
proof -
  have ex: "calculateCosts [sightseeing_stop] =
     \<lparr>transport = 1000, accommodation = 2000, activities = 500, meals = 1500\<rparr>"
    by (simp add: calculateCosts_def accumulate_costs_eq all_activities_def sightseeing_stop_def
        mk_stop_def mk_activity_def stop_activities_def sightseeing_not_meal)
  have tot: "totalEstimated (calculateCosts [sightseeing_stop]) = 5000"
    by (simp add: ex totalEstimated_def)
  have cat: "\<forall>c. is_meal_category c =
     (\<exists>s p q. c = Some s \<and>
        (toLowerCase s = p @ ''food'' @ q \<or> toLowerCase s = p @ ''dining'' @ q))"
    using is_meal_category_iff by blast
  show ?thesis
    using ex tot cat
    by (simp add: calculateCosts_def accumulate_costs_eq totalEstimated_def Let_def)
qed


section \<open>Activities without a category\<close>

lemma null_category_not_meal: "\<not> is_meal_category None"
  by (simp add: is_meal_category_def)

lemma all_null_filter:
  assumes "\<forall>s\<in>set stops. \<forall>a\<in>set (stop_activities s). category a = None"
  shows "filter (\<lambda>a. is_meal_category (category a)) (all_activities stops) = []"
    and "filter (\<lambda>a. \<not> is_meal_category (category a)) (all_activities stops) = all_activities stops"
  using assms by (auto simp: all_activities_def filter_empty_conv null_category_not_meal)

text \<open>
  Claim C10. An activity whose category is null adds its estimated cost to the
  \<open>activities\<close> total and not to \<open>meals\<close>; the computation is a total function, so
  nothing is thrown. When every activity of every stop has a null category, the loop
  accumulates zero meals, all costs are in \<open>activities\<close>, and \<open>calculateCosts\<close> returns
  the fallback estimate of 1500 per stop as \<open>meals\<close>.
\<close>

theorem null_category_counts_as_activity:
  assumes "\<forall>s\<in>set stops. \<forall>a\<in>set (stop_activities s). category a = None"
  shows "(\<forall>c a. category a = None \<longrightarrow>
            add_activity c a = c\<lparr>activities := activities c + estimated_cost a\<rparr>) \<and>
         meals (accumulate_costs stops) = 0 \<and>
         activities (accumulate_costs stops) = (\<Sum>a\<leftarrow>all_activities stops. estimated_cost a) \<and>
         activities (calculateCosts stops) = (\<Sum>a\<leftarrow>all_activities stops. estimated_cost a) \<and>
         meals (calculateCosts stops) = real (length stops) * 1500"
proof -
  have one: "\<forall>c a. category a = None \<longrightarrow>
            add_activity c a = c\<lparr>activities := activities c + estimated_cost a\<rparr>"
    by (simp add: add_activity_def null_category_not_meal)
  have acc: "meals (accumulate_costs stops) = 0"
    by (simp add: accumulate_costs_eq all_null_filter(1)[OF assms])
  have act: "activities (accumulate_costs stops) = (\<Sum>a\<leftarrow>all_activities stops. estimated_cost a)"
    by (simp add: accumulate_costs_eq all_null_filter(2)[OF assms])
  show ?thesis
    using one acc act by (simp add: calculateCosts_def)
qed

theorem null_category_counts_as_activity_witness:
  "map category (all_activities [uncategorised_stop]) = [None, None] \<and>
   meals (accumulate_costs [uncategorised_stop]) = 0 \<and>
   activities (calculateCosts [uncategorised_stop]) = 500 \<and>
   meals (calculateCosts [uncategorised_stop]) = 1500"
proof -
  have h: "\<forall>s\<in>set [uncategorised_stop]. \<forall>a\<in>set (stop_activities s). category a = None"
    by (simp add: uncategorised_stop_def mk_stop_def mk_activity_def stop_activities_def)
  have "(\<Sum>a\<leftarrow>all_activities [uncategorised_stop]. estimated_cost a) = 500"
    by (simp add: all_activities_def uncategorised_stop_def mk_stop_def mk_activity_def
        stop_activities_def)
  moreover have "map category (all_activities [uncategorised_stop]) = [None, None]"
    by (simp add: all_activities_def uncategorised_stop_def mk_stop_def mk_activity_def
        stop_activities_def)
  ultimately show ?thesis
    using null_category_counts_as_activity [OF h] by simp
qed


section \<open>Trip pace\<close>

lemma count_activities:
  "foldl (\<lambda>sum stop. sum + length (stop_activities stop)) n stops =
     n + length (all_activities stops)"
  by (induction stops arbitrary: n) (simp_all add: all_activities_def)

lemma pace_of_ratio:
  assumes "t_start_date trip = Some s" and "t_end_date trip = Some e" and "stops \<noteq> []"
    and "tripDuration trip \<noteq> 0"
  shows "calculateTripPace trip stops =
     (let r = real (length (all_activities stops)) / real_of_int (tripDuration trip)
      in if r < 2 then Relaxed else if r \<le> 4 then Balanced else Packed)"
  using assms
  by (simp add: calculateTripPace_def tripDuration_def count_activities js_div_def Let_def)

lemma days_2024_01: "days_from_civil 2024 1 d = 19722 + d"
  by (simp add: days_from_civil_def Let_def)

lemma length_stop_with: "length (all_activities [stop_with m, stop_with n]) = m + n"
  by (simp add: all_activities_def stop_with_def mk_stop_def stop_activities_def)

text \<open>
  Claim C3. \<open>calculateTripPace\<close> returns Planning exactly when the trip does not have
  both dates or there is no stop. Otherwise, with \<open>r\<close> the number of activities divided
  by the inclusive number of days (when that number is not zero), the label is Relaxed
  for \<open>r < 2\<close>, Balanced for \<open>2 \<le> r \<le> 4\<close> and Packed for \<open>4 < r\<close>. The witness
  evaluates 9, 3 and 20 activities over the three days 2024-01-01 to 2024-01-03.
\<close>

theorem calculateTripPace_label:
  "((calculateTripPace trip stops = Planning) =
      (t_start_date trip = None \<or> t_end_date trip = None \<or> stops = [])) \<and>
   (\<forall>s e r. t_start_date trip = Some s \<and> t_end_date trip = Some e \<and> stops \<noteq> [] \<and>
        tripDuration trip \<noteq> 0 \<and>
        r = real (length (all_activities stops)) / real_of_int (tripDuration trip) \<longrightarrow>
        (r < 2 \<longrightarrow> calculateTripPace trip stops = Relaxed) \<and>
        (2 \<le> r \<and> r \<le> 4 \<longrightarrow> calculateTripPace trip stops = Balanced) \<and>
        (4 < r \<longrightarrow> calculateTripPace trip stops = Packed))"
proof -
  have planning: "(calculateTripPace trip stops = Planning) =
      (t_start_date trip = None \<or> t_end_date trip = None \<or> stops = [])"
    by (auto simp: calculateTripPace_def Let_def split: option.splits)
  have ratio: "\<forall>s e r. t_start_date trip = Some s \<and> t_end_date trip = Some e \<and> stops \<noteq> [] \<and>
        tripDuration trip \<noteq> 0 \<and>
        r = real (length (all_activities stops)) / real_of_int (tripDuration trip) \<longrightarrow>
        (r < 2 \<longrightarrow> calculateTripPace trip stops = Relaxed) \<and>
        (2 \<le> r \<and> r \<le> 4 \<longrightarrow> calculateTripPace trip stops = Balanced) \<and>
        (4 < r \<longrightarrow> calculateTripPace trip stops = Packed)"
  proof (intro allI impI)
    fix s e r
    assume a: "t_start_date trip = Some s \<and> t_end_date trip = Some e \<and> stops \<noteq> [] \<and>
        tripDuration trip \<noteq> 0 \<and>
        r = real (length (all_activities stops)) / real_of_int (tripDuration trip)"
    then have "calculateTripPace trip stops =
        (if r < 2 then Relaxed else if r \<le> 4 then Balanced else Packed)"
      using pace_of_ratio [of trip s e stops] by (simp add: Let_def)
    then show "(r < 2 \<longrightarrow> calculateTripPace trip stops = Relaxed) \<and>
        (2 \<le> r \<and> r \<le> 4 \<longrightarrow> calculateTripPace trip stops = Balanced) \<and>
        (4 < r \<longrightarrow> calculateTripPace trip stops = Packed)"
      by auto
  qed
  from planning ratio show ?thesis by blast
qed

lemma three_day_trip_facts:
  "t_start_date three_day_trip = Some (ISODate 2024 1 1)"
  "t_end_date three_day_trip = Some (ISODate 2024 1 3)"
  "tripDuration three_day_trip = 3"
  by (simp_all add: three_day_trip_def mk_trip_def tripDuration_def differenceInDays_def days_2024_01)

theorem calculateTripPace_label_witness:
  "tripDuration three_day_trip = 3 \<and>
   calculateTripPace three_day_trip [stop_with 5, stop_with 4] = Balanced \<and>
   calculateTripPace three_day_trip [stop_with 2, stop_with 1] = Relaxed \<and>
   calculateTripPace three_day_trip [stop_with 10, stop_with 10] = Packed \<and>
   calculateTripPace undated_trip [stop_with 5, stop_with 4] = Planning \<and>
   calculateTripPace three_day_trip [] = Planning"
proof -
  have b: "calculateTripPace three_day_trip [stop_with 5, stop_with 4] = Balanced"
    using calculateTripPace_label [of three_day_trip "[stop_with 5, stop_with 4]"]
    by (simp add: three_day_trip_facts length_stop_with)
  have r: "calculateTripPace three_day_trip [stop_with 2, stop_with 1] = Relaxed"
    using calculateTripPace_label [of three_day_trip "[stop_with 2, stop_with 1]"]
    by (simp add: three_day_trip_facts length_stop_with)
  have p: "calculateTripPace three_day_trip [stop_with 10, stop_with 10] = Packed"
    using calculateTripPace_label [of three_day_trip "[stop_with 10, stop_with 10]",
        THEN conjunct2, THEN spec, THEN spec, THEN spec,
        of "ISODate 2024 1 1" "ISODate 2024 1 3" "20 / 3"]
    by (simp add: three_day_trip_facts length_stop_with)
  have u: "calculateTripPace undated_trip [stop_with 5, stop_with 4] = Planning"
    using calculateTripPace_label [of undated_trip "[stop_with 5, stop_with 4]"]
    by (simp add: undated_trip_def mk_trip_def)
  have e: "calculateTripPace three_day_trip [] = Planning"
    using calculateTripPace_label [of three_day_trip "[]"] by simp
  from b r p u e show ?thesis by (simp add: three_day_trip_facts)
qed


section \<open>Average cost per day\<close>

lemma ms_to_days: "\<lceil>real_of_int (getTime e - getTime s) / 86400000\<rceil> = parseISO e - parseISO s"
proof -
  have "real_of_int (getTime e - getTime s) = real_of_int (parseISO e - parseISO s) * 86400000"
    by (simp add: getTime_def algebra_simps)
  then have "real_of_int (getTime e - getTime s) / 86400000 = real_of_int (parseISO e - parseISO s)"
    by simp
  then show ?thesis by (simp only: ceiling_of_int)
qed

lemma averagePerDay_dated:
  assumes "t_start_date trip = Some s" and "t_end_date trip = Some e"
  shows "averagePerDay trip stops =
     totalEstimated (calculateCosts stops) / real_of_int (max 1 (parseISO e - parseISO s))"
  by (simp only: averagePerDay_def assms option.case ms_to_days)

text \<open>
  Claim C4, as stated, fails: for a trip without dates and one stop with an estimated
  total of 5000 the budget screen shows an average of 0, where the formula of the
  specification gives 5000 / 1.
\<close>

theorem averagePerDay_counterexample:
  "averagePerDay undated_trip [sightseeing_stop] \<noteq>
     spec_averageDailyCost undated_trip [sightseeing_stop]"
proof -
  have t: "totalEstimated (calculateCosts [sightseeing_stop]) = 5000"
    by (simp add: totalEstimated_def calculateCosts_def accumulate_costs_eq all_activities_def
        sightseeing_stop_def mk_stop_def mk_activity_def stop_activities_def sightseeing_not_meal)
  show ?thesis
    by (simp add: averagePerDay_def spec_averageDailyCost_def tripDuration_def undated_trip_def
        mk_trip_def t)
qed

text \<open>
  Claim C4, amended. \<open>averagePerDay\<close> is 0 when the trip lacks either date. When both
  dates are set it is the estimated total divided by a whole number of days that is at
  least 1, so it never divides by zero; for a trip that starts and ends on the same day
  the divisor is 1.
\<close>

theorem averagePerDay_floor:
  "(t_start_date trip = None \<or> t_end_date trip = None \<longrightarrow> averagePerDay trip stops = 0) \<and>
   (\<forall>s e. t_start_date trip = Some s \<and> t_end_date trip = Some e \<longrightarrow>
      (\<exists>d::int. 1 \<le> d \<and>
         averagePerDay trip stops = totalEstimated (calculateCosts stops) / real_of_int d) \<and>
      (s = e \<longrightarrow> averagePerDay trip stops = totalEstimated (calculateCosts stops)))"
proof -
  have none: "t_start_date trip = None \<or> t_end_date trip = None \<longrightarrow> averagePerDay trip stops = 0"
    by (auto simp: averagePerDay_def split: option.splits)
  have some: "\<forall>s e. t_start_date trip = Some s \<and> t_end_date trip = Some e \<longrightarrow>
      (\<exists>d::int. 1 \<le> d \<and>
         averagePerDay trip stops = totalEstimated (calculateCosts stops) / real_of_int d) \<and>
      (s = e \<longrightarrow> averagePerDay trip stops = totalEstimated (calculateCosts stops))"
  proof (intro allI impI conjI)
    fix s e
    assume a: "t_start_date trip = Some s \<and> t_end_date trip = Some e"
    then have eq: "averagePerDay trip stops =
        totalEstimated (calculateCosts stops) / real_of_int (max 1 (parseISO e - parseISO s))"
      using averagePerDay_dated by blast
    have "1 \<le> max 1 (parseISO e - parseISO s)" by simp
    with eq show "\<exists>d::int. 1 \<le> d \<and>
         averagePerDay trip stops = totalEstimated (calculateCosts stops) / real_of_int d"
      by blast
    assume "s = e"
    with eq show "averagePerDay trip stops = totalEstimated (calculateCosts stops)" by simp
  qed
  from none some show ?thesis by blast
qed

theorem averagePerDay_floor_witness:
  "averagePerDay undated_trip [sightseeing_stop] = 0 \<and>
   averagePerDay same_day_trip [sightseeing_stop] = 5000"
proof -
  have t: "totalEstimated (calculateCosts [sightseeing_stop]) = 5000"
    by (simp add: totalEstimated_def calculateCosts_def accumulate_costs_eq all_activities_def
        sightseeing_stop_def mk_stop_def mk_activity_def stop_activities_def sightseeing_not_meal)
  have u: "averagePerDay undated_trip [sightseeing_stop] = 0"
    using averagePerDay_floor [of undated_trip "[sightseeing_stop]"]
    by (simp add: undated_trip_def mk_trip_def)
  have d: "averagePerDay same_day_trip [sightseeing_stop] = 5000"
    using averagePerDay_floor [of same_day_trip "[sightseeing_stop]"] t
    by (simp add: same_day_trip_def mk_trip_def)
  from u d show ?thesis by simp
qed


section \<open>Date alerts\<close>

lemma foldl_check_activity_date:
  "foldl (check_activity_date stop lo hi) alerts acts =
     alerts @ map (date_alert stop)
       (filter (\<lambda>a. case scheduled_date a of None \<Rightarrow> False
                     | Some d \<Rightarrow> parseISO d < lo \<or> hi < parseISO d) acts)"
proof (induction acts arbitrary: alerts)
  case Nil
  then show ?case by simp
next
  case (Cons a acts)
  have "foldl (check_activity_date stop lo hi) alerts (a # acts) =
        foldl (check_activity_date stop lo hi) (check_activity_date stop lo hi alerts a) acts"
    by simp
  also have "\<dots> = check_activity_date stop lo hi alerts a @ map (date_alert stop)
       (filter (\<lambda>a. case scheduled_date a of None \<Rightarrow> False
                     | Some d \<Rightarrow> parseISO d < lo \<or> hi < parseISO d) acts)"
    by (rule Cons.IH)
  also have "check_activity_date stop lo hi alerts a =
      alerts @ map (date_alert stop)
       (filter (\<lambda>a. case scheduled_date a of None \<Rightarrow> False
                     | Some d \<Rightarrow> parseISO d < lo \<or> hi < parseISO d) [a])"
    by (auto simp: check_activity_date_def isWithinInterval_def Let_def split: option.splits)
  finally show ?case by simp
qed

lemma check_stop_dates_eq:
  "check_stop_dates alerts stop =
     alerts @ map (date_alert stop) (filter (scheduled_outside stop) (stop_activities stop))"
proof -
  have same: "\<And>sd ed. s_start_date stop = Some sd \<Longrightarrow> s_end_date stop = Some ed \<Longrightarrow>
      (\<lambda>a. case scheduled_date a of None \<Rightarrow> False
            | Some d \<Rightarrow> parseISO d < parseISO sd \<or> parseISO ed < parseISO d) = scheduled_outside stop"
    by (rule ext) (simp add: scheduled_outside_def split: option.splits)
  show ?thesis
  proof (cases "s_activities stop")
    case None
    then show ?thesis by (simp add: check_stop_dates_def stop_activities_def)
  next
    case acts: (Some acts)
    show ?thesis
    proof (cases "s_start_date stop")
      case None
      then show ?thesis
        by (simp add: check_stop_dates_def acts scheduled_outside_def)
    next
      case sd: (Some sd)
      show ?thesis
      proof (cases "s_end_date stop")
        case None
        then show ?thesis
          by (simp add: check_stop_dates_def acts sd scheduled_outside_def)
      next
        case ed: (Some ed)
        show ?thesis
          by (simp add: check_stop_dates_def acts sd ed stop_activities_def
              foldl_check_activity_date same [OF sd ed])
      qed
    qed
  qed
qed

lemma foldl_check_stop_dates:
  "foldl check_stop_dates alerts stops =
     alerts @ concat (map (\<lambda>stop. map (date_alert stop)
                              (filter (scheduled_outside stop) (stop_activities stop))) stops)"
proof (induction stops arbitrary: alerts)
  case Nil
  then show ?case by simp
next
  case (Cons s stops)
  have "foldl check_stop_dates alerts (s # stops) =
        foldl check_stop_dates (check_stop_dates alerts s) stops" by simp
  also have "\<dots> = check_stop_dates alerts s @
      concat (map (\<lambda>stop. map (date_alert stop)
                     (filter (scheduled_outside stop) (stop_activities stop))) stops)"
    by (rule Cons.IH)
  also have "check_stop_dates alerts s =
      alerts @ map (date_alert s) (filter (scheduled_outside s) (stop_activities s))"
    by (rule check_stop_dates_eq)
  finally show ?case by simp
qed

text \<open>
  Claim C7. For stops whose dates are in order, the third pass of \<open>ConflictAlerts\<close>
  produces, for every stop and in order, exactly one alert of type date and severity
  error for each activity of the stop that is scheduled outside the inclusive interval
  from the start date to the end date of the stop, and none for any other activity. The
  message names the activity and the city of the stop. A stop dated 2024-01-01 to
  2024-01-02 with an activity on 2024-01-05 yields exactly that one alert; with the
  activity on 2024-01-01 or on 2024-01-02 it yields none.
\<close>

theorem dateAlerts_out_of_range:
  assumes "\<forall>stop\<in>set stops. dates_in_order stop"
  shows "dateAlerts stops =
           concat (map (\<lambda>stop. map (date_alert stop)
                          (filter (scheduled_outside stop) (stop_activities stop))) stops) \<and>
         (\<forall>stop\<in>set stops.
            length (dateAlerts [stop]) =
              length (filter (scheduled_outside stop) (stop_activities stop))) \<and>
         (\<forall>stop activity.
            alert_type (date_alert stop activity) = DateAlert \<and>
            severity (date_alert stop activity) = Error \<and>
            message (date_alert stop activity) =
              ''Activity '' @ [CHR 0x22] @ a_name activity @ [CHR 0x22] @ '' in '' @
              city_name stop @ '' is scheduled outside city dates'')"
proof -
  have gen: "\<And>stops. dateAlerts stops =
     concat (map (\<lambda>stop. map (date_alert stop)
                    (filter (scheduled_outside stop) (stop_activities stop))) stops)"
    by (simp add: dateAlerts_def foldl_check_stop_dates)
  show ?thesis
    by (simp add: gen date_alert_def)
qed

theorem dateAlerts_out_of_range_witness:
  "dates_in_order (new_year_stop (ISODate 2024 1 5)) \<and>
   dateAlerts [new_year_stop (ISODate 2024 1 5)] =
     [\<lparr>alert_type = DateAlert,
       message = ''Activity '' @ [CHR 0x22] @ ''Beach'' @ [CHR 0x22] @
                 '' in Goa is scheduled outside city dates'',
       severity = Error\<rparr>] \<and>
   dateAlerts [new_year_stop (ISODate 2024 1 1)] = [] \<and>
   dateAlerts [new_year_stop (ISODate 2024 1 2)] = []"
proof -
  have ord: "\<And>d. \<forall>stop\<in>set [new_year_stop d]. dates_in_order stop"
    by (simp add: dates_in_order_def new_year_stop_def mk_stop_def days_2024_01)
  have out: "dateAlerts [new_year_stop (ISODate 2024 1 5)] =
     [\<lparr>alert_type = DateAlert,
       message = ''Activity '' @ [CHR 0x22] @ ''Beach'' @ [CHR 0x22] @
                 '' in Goa is scheduled outside city dates'',
       severity = Error\<rparr>]"
    unfolding dateAlerts_out_of_range [OF ord, THEN conjunct1]
    by (simp add: new_year_stop_def mk_stop_def mk_activity_def stop_activities_def
        scheduled_outside_def date_alert_def days_2024_01)
  have in1: "dateAlerts [new_year_stop (ISODate 2024 1 1)] = []"
    unfolding dateAlerts_out_of_range [OF ord, THEN conjunct1]
    by (simp add: new_year_stop_def mk_stop_def mk_activity_def stop_activities_def
        scheduled_outside_def days_2024_01)
  have in2: "dateAlerts [new_year_stop (ISODate 2024 1 2)] = []"
    unfolding dateAlerts_out_of_range [OF ord, THEN conjunct1]
    by (simp add: new_year_stop_def mk_stop_def mk_activity_def stop_activities_def
        scheduled_outside_def days_2024_01)
  from ord [of "ISODate 2024 1 5"] out in1 in2 show ?thesis by simp
qed


section \<open>Share links\<close>

text \<open>
  Claim C8 does not hold of \<open>handleShare\<close>. For a trip without a share code the handler
  stores the first random code and then, because the \<open>trip\<close> prop still has no code,
  puts a second random code into the link: the link carries \<open>bbbbbbbb\<close>, the store holds
  \<open>aaaaaaaa\<close>, and the lookup of the link finds no trip. For a trip that has a share
  code but is not public the handler changes nothing, so the lookup, which also requires
  \<open>is_public\<close>, finds no trip either.
\<close>

theorem handleShare_link_does_not_resolve:
  "fst (handleShare two_codes ''https://app'' unshared_trip sharing_store) =
     ''https://app?share=bbbbbbbb'' \<and>
   map share_code (trips (snd (handleShare two_codes ''https://app'' unshared_trip sharing_store))) =
     [Some ''aaaaaaaa'', Some ''k3x9q2ab''] \<and>
   loadSharedTrip ''bbbbbbbb''
     (snd (handleShare two_codes ''https://app'' unshared_trip sharing_store)) = None \<and>
   fst (handleShare two_codes ''https://app'' private_trip sharing_store) =
     ''https://app?share=k3x9q2ab'' \<and>
   snd (handleShare two_codes ''https://app'' private_trip sharing_store) = sharing_store \<and>
   loadSharedTrip ''k3x9q2ab''
     (snd (handleShare two_codes ''https://app'' private_trip sharing_store)) = None"
  by (simp add: handleShare_def truthy_string_def update_trip_sharing_def loadSharedTrip_def
      single_def sharing_store_def unshared_trip_def private_trip_def mk_trip_def two_codes_def
      Let_def)

section \<open>Order indices of new stops\<close>

text \<open>
  Claim C6 does not hold of the stop-creating handlers. \<open>handleAddSpot\<close> gives every stop
  it creates the order index 0, so a trip that has a stop with index 0 gets a second one.
  \<open>handleAddStop\<close> uses the number of stops in the list, which is already taken once a
  stop other than the last has been deleted: deleting the second of three stops and
  adding one leaves the indices 0, 2, 2.
\<close>

theorem new_stop_reuses_order_index:
  "order_indices_of_trip ''t1'' goa_store = [0] \<and>
   order_indices_of_trip ''t1''
     (handleAddSpot no_float (Some goa_trip) None ''Mumbai'' fort_spot goa_store) = [0, 0] \<and>
   order_indices_of_trip ''t1'' three_stop_store = [0, 1, 2] \<and>
   order_indices_of_trip ''t1''
     (snd (handleAddStop (Some goa_trip) delhi_form
        (handleDeleteStop ''s2'' (three_stops, three_stop_store)))) = [0, 2, 2]"
  by (simp add: order_indices_of_trip_def handleAddSpot_def handleAddStop_def handleDeleteStop_def
      delete_trip_stop_def insert_trip_stop_def insert_trip_activity_def single_def
      destination_or_query_def truthy_string_def goa_store_def goa_trip_def three_stop_store_def three_stops_def
      delhi_form_def fort_spot_def no_float_def mk_trip_def mk_stop_def trim_is_empty_def
      is_space_def StopData.defs TripStop.defs ActivityData.defs TripActivity.defs Let_def)


section \<open>Moving a stop up or down\<close>

lemma findIndex_nth:
  assumes "k < length xs" and "P (xs ! k)" and "\<forall>i<k. \<not> P (xs ! i)"
  shows "findIndex P xs = int k"
  using assms
proof (induction xs arbitrary: k)
  case Nil
  then show ?case by simp
next
  case (Cons x xs)
  show ?case
  proof (cases k)
    case 0
    with Cons.prems show ?thesis by simp
  next
    case (Suc k')
    have nx: "\<not> P x" using Cons.prems(3) Suc by force
    have "findIndex P xs = int k'"
    proof (rule Cons.IH)
      show "k' < length xs" using Cons.prems(1) Suc by simp
      show "P (xs ! k')" using Cons.prems(2) Suc by simp
      show "\<forall>i<k'. \<not> P (xs ! i)" using Cons.prems(3) Suc by force
    qed
    with nx Suc show ?thesis by (simp add: Let_def)
  qed
qed

lemma findIndex_distinct:
  assumes "distinct (map f xs)" and "k < length xs"
  shows "findIndex (\<lambda>x. f x = f (xs ! k)) xs = int k"
proof (rule findIndex_nth [OF assms(2)])
  show "f (xs ! k) = f (xs ! k)" by simp
  show "\<forall>i<k. f (xs ! i) \<noteq> f (xs ! k)"
  proof (intro allI impI)
    fix i assume "i < k"
    then have "i < length xs" "i \<noteq> k" using assms(2) by simp_all
    then have "map f xs ! i \<noteq> map f xs ! k"
      using assms by (simp add: nth_eq_iff_index_eq del: nth_map)
    then show "f (xs ! i) \<noteq> f (xs ! k)" using \<open>i < length xs\<close> assms(2) by simp
  qed
qed

lemma reorder_explicit:
  assumes d: "distinct (map (\<lambda>r. s_id (h r)) refs)"
    and i: "i < length refs" and j: "j < length refs"
    and adj: "(dir = Up \<and> i = Suc j) \<or> (dir = Down \<and> j = Suc i)"
  shows "handleReorderStop (Some t) (s_id (h (refs ! i))) dir
           \<lparr>b_stops = refs, b_heap = h, b_store = db\<rparr> =
         \<lparr>b_stops = refs[i := refs ! j, j := refs ! i],
          b_heap = h(refs ! i := (h (refs ! i))\<lparr>s_order_index := s_order_index (h (refs ! j))\<rparr>,
                     refs ! j := (h (refs ! j))\<lparr>s_order_index := s_order_index (h (refs ! i))\<rparr>),
          b_store = update_stop_order_index (s_id (h (refs ! j))) (s_order_index (h (refs ! i)))
                      (update_stop_order_index (s_id (h (refs ! i))) (s_order_index (h (refs ! j))) db)\<rparr>"
proof -
  have fi: "findIndex (\<lambda>r. s_id (h r) = s_id (h (refs ! i))) refs = int i"
    using findIndex_distinct [OF d i] by simp
  have ij: "i \<noteq> j" using adj by auto
  have "map (\<lambda>r. s_id (h r)) refs ! i \<noteq> map (\<lambda>r. s_id (h r)) refs ! j"
    using d i j ij by (simp add: nth_eq_iff_index_eq del: nth_map)
  then have ids: "s_id (h (refs ! i)) \<noteq> s_id (h (refs ! j))" using i j by simp
  then have refs_ne: "refs ! i \<noteq> refs ! j" by auto
  from adj show ?thesis
  proof (elim disjE conjE)
    assume up: "dir = Up" and ij': "i = Suc j"
    have n1: "nat (int i - 1) = j" "nat (int i) = i" using ij' by simp_all
    have n2: "\<not> int i - 1 < 0" "\<not> int (length refs) \<le> int i - 1" using ij' j by simp_all
    show ?thesis
      using up refs_ne ids n1 n2 i j
      by (simp add: handleReorderStop_def Let_def fi)
  next
    assume down: "dir = Down" and ij': "j = Suc i"
    have n1: "nat (int i + 1) = j" "nat (int i) = i" using ij' by simp_all
    have n2: "\<not> int i + 1 < 0" "\<not> int (length refs) \<le> int i + 1" using ij' j by simp_all
    show ?thesis
      using down refs_ne ids n1 n2 i j
      by (simp add: handleReorderStop_def Let_def fi)
  qed
qed


lemma map_swap:
  assumes "i < length xs" and "j < length xs"
  shows "map f (xs[i := xs ! j, j := xs ! i]) = (map f xs)[i := map f xs ! j, j := map f xs ! i]"
  using assms by (simp add: map_update)

lemma update_twice_restores:
  assumes ne: "ia \<noteq> ib"
    and ma: "\<forall>row\<in>set (trip_stops db). s_id row = ia \<longrightarrow> s_order_index row = va"
    and mb: "\<forall>row\<in>set (trip_stops db). s_id row = ib \<longrightarrow> s_order_index row = vb"
  shows "update_stop_order_index ib vb (update_stop_order_index ia va
           (update_stop_order_index ib va (update_stop_order_index ia vb db))) = db"
proof -
  let ?U = "update_stop_order_index ib vb (update_stop_order_index ia va
           (update_stop_order_index ib va (update_stop_order_index ia vb db)))"
  have rows: "trip_stops ?U = trip_stops db"
    unfolding update_stop_order_index_def
    apply (simp add: comp_def)
    apply (rule map_idI)
    using ne ma mb apply auto
    done
  have "?U = db\<lparr>trip_stops := trip_stops ?U\<rparr>"
    by (simp add: update_stop_order_index_def)
  also have "\<dots> = db" by (simp add: rows)
  finally show ?thesis .
qed

lemma swap_rows:
  assumes "ia \<noteq> ib"
  shows "trip_stops (update_stop_order_index ib va (update_stop_order_index ia vb db)) =
         map (\<lambda>row. if s_id row = ia then row\<lparr>s_order_index := vb\<rparr>
                     else if s_id row = ib then row\<lparr>s_order_index := va\<rparr> else row)
             (trip_stops db)"
  using assms by (auto simp: update_stop_order_index_def)

lemma builder_state_cases:
  obtains refs h db where "st = \<lparr>b_stops = refs, b_heap = h, b_store = db\<rparr>"
  by (cases st) auto

text \<open>
  Claim C2. Let the stops shown by the trip builder have pairwise distinct identifiers
  (the identifier is the key of a stop), and let positions \<open>i\<close> and \<open>j\<close> be adjacent, the
  stop at \<open>i\<close> being moved up to \<open>j = i - 1\<close> or down to \<open>j = i + 1\<close>. Then
  \<open>handleReorderStop\<close> exchanges the order indices of exactly these two stops: in the
  shown list the two stops change places and take each other's order index, no other
  stop object is modified, in the store only the rows with the two identifiers change,
  and the order indices read along the shown list are the same as before (so a list
  numbered 0 to n-1 in ascending order stays so). When the shown stops mirror the store,
  moving the same stop back in the opposite direction restores the state exactly; in
  particular, up at position k followed by down at position k-1 is the identity.
\<close>

theorem handleReorderStop_swap_and_inverse:
  assumes ids: "distinct (map s_id (shown_stops st))"
    and i: "i < length (b_stops st)" and j: "j < length (b_stops st)"
    and adj: "(dir = Up \<and> i = Suc j) \<or> (dir = Down \<and> j = Suc i)"
    and st': "st' = handleReorderStop (Some t) (s_id (shown_stops st ! i)) dir st"
  shows "shown_stops st' =
           (shown_stops st)
             [i := (shown_stops st ! j)\<lparr>s_order_index := s_order_index (shown_stops st ! i)\<rparr>,
              j := (shown_stops st ! i)\<lparr>s_order_index := s_order_index (shown_stops st ! j)\<rparr>] \<and>
         (\<forall>r. r \<noteq> b_stops st ! i \<and> r \<noteq> b_stops st ! j \<longrightarrow> b_heap st' r = b_heap st r) \<and>
         trip_stops (b_store st') =
           map (\<lambda>row. if s_id row = s_id (shown_stops st ! i)
                       then row\<lparr>s_order_index := s_order_index (shown_stops st ! j)\<rparr>
                       else if s_id row = s_id (shown_stops st ! j)
                       then row\<lparr>s_order_index := s_order_index (shown_stops st ! i)\<rparr>
                       else row)
               (trip_stops (b_store st)) \<and>
         map s_order_index (shown_stops st') = map s_order_index (shown_stops st) \<and>
         (mirrors_store st \<longrightarrow>
            handleReorderStop (Some t) (s_id (shown_stops st' ! j))
              (if dir = Up then Down else Up) st' = st)"
proof -
  obtain refs h db where st: "st = \<lparr>b_stops = refs, b_heap = h, b_store = db\<rparr>"
    by (rule builder_state_cases)
  have i': "i < length refs" and j': "j < length refs" using i j st by simp_all
  have ij: "i \<noteq> j" using adj by auto
  have d: "distinct (map (\<lambda>r. s_id (h r)) refs)"
    using ids st by (simp add: shown_stops_def comp_def)
  have shown: "shown_stops st ! i = h (refs ! i)" "shown_stops st ! j = h (refs ! j)"
    using i' j' st by (simp_all add: shown_stops_def)
  have "map (\<lambda>r. s_id (h r)) refs ! i \<noteq> map (\<lambda>r. s_id (h r)) refs ! j"
    using d i' j' ij by (simp add: nth_eq_iff_index_eq del: nth_map)
  then have idne: "s_id (h (refs ! i)) \<noteq> s_id (h (refs ! j))" using i' j' by simp
  then have refne: "refs ! i \<noteq> refs ! j" by auto
  define a where "a = refs ! i"
  define b where "b = refs ! j"
  define h' where "h' = h(a := (h a)\<lparr>s_order_index := s_order_index (h b)\<rparr>,
                          b := (h b)\<lparr>s_order_index := s_order_index (h a)\<rparr>)"
  define refs' where "refs' = refs[i := b, j := a]"
  define db' where "db' = update_stop_order_index (s_id (h b)) (s_order_index (h a))
                      (update_stop_order_index (s_id (h a)) (s_order_index (h b)) db)"
  have ab: "a \<noteq> b" using refne by (simp add: a_def b_def)
  have st'_eq: "st' = \<lparr>b_stops = refs', b_heap = h', b_store = db'\<rparr>"
    unfolding st' shown
    unfolding st refs'_def h'_def db'_def a_def b_def
    by (rule reorder_explicit [OF d i' j' adj])
  have h'a: "h' a = (h a)\<lparr>s_order_index := s_order_index (h b)\<rparr>"
    and h'b: "h' b = (h b)\<lparr>s_order_index := s_order_index (h a)\<rparr>"
    using ab by (simp_all add: h'_def)
  have h'other: "\<And>r. r \<noteq> a \<Longrightarrow> r \<noteq> b \<Longrightarrow> h' r = h r" by (simp add: h'_def)
  have id_same: "\<And>r. s_id (h' r) = s_id (h r)" by (simp add: h'_def)
  have len: "length refs' = length refs" by (simp add: refs'_def)
  have nth': "refs' ! j = a" "refs' ! i = b"
    using i' j' ij by (simp_all add: refs'_def nth_list_update)
  \<comment> \<open>the shown list after the move\<close>
  have other_refs: "\<And>n. n < length refs \<Longrightarrow> n \<noteq> i \<Longrightarrow> n \<noteq> j \<Longrightarrow> refs ! n \<noteq> a \<and> refs ! n \<noteq> b"
  proof -
    fix n assume n: "n < length refs" "n \<noteq> i" "n \<noteq> j"
    have "map (\<lambda>r. s_id (h r)) refs ! n \<noteq> map (\<lambda>r. s_id (h r)) refs ! i"
         "map (\<lambda>r. s_id (h r)) refs ! n \<noteq> map (\<lambda>r. s_id (h r)) refs ! j"
      using d n i' j' by (simp_all add: nth_eq_iff_index_eq del: nth_map)
    then have "s_id (h (refs ! n)) \<noteq> s_id (h a)" "s_id (h (refs ! n)) \<noteq> s_id (h b)"
      using n i' j' by (simp_all add: a_def b_def)
    then show "refs ! n \<noteq> a \<and> refs ! n \<noteq> b" by auto
  qed
  have view: "shown_stops st' =
           (shown_stops st)
             [i := (shown_stops st ! j)\<lparr>s_order_index := s_order_index (shown_stops st ! i)\<rparr>,
              j := (shown_stops st ! i)\<lparr>s_order_index := s_order_index (shown_stops st ! j)\<rparr>]"
  proof (rule nth_equalityI)
    show "length (shown_stops st') = length ((shown_stops st)
             [i := (shown_stops st ! j)\<lparr>s_order_index := s_order_index (shown_stops st ! i)\<rparr>,
              j := (shown_stops st ! i)\<lparr>s_order_index := s_order_index (shown_stops st ! j)\<rparr>])"
      by (simp add: st'_eq st shown_stops_def len)
  next
    fix n assume "n < length (shown_stops st')"
    then have n: "n < length refs" by (simp add: st'_eq shown_stops_def len)
    consider "n = i" | "n = j" | "n \<noteq> i" "n \<noteq> j" by blast
    then show "shown_stops st' ! n = (shown_stops st)
             [i := (shown_stops st ! j)\<lparr>s_order_index := s_order_index (shown_stops st ! i)\<rparr>,
              j := (shown_stops st ! i)\<lparr>s_order_index := s_order_index (shown_stops st ! j)\<rparr>] ! n"
    proof cases
      case 1
      then show ?thesis
        using n i' j' ij nth' h'b
        by (simp add: st'_eq st shown_stops_def len a_def b_def)
    next
      case 2
      then show ?thesis
        using n i' j' ij nth' h'a
        by (simp add: st'_eq st shown_stops_def len a_def b_def)
    next
      case 3
      then have "refs' ! n = refs ! n" by (simp add: refs'_def)
      moreover have "h' (refs ! n) = h (refs ! n)"
        using other_refs [OF n 3] h'other by blast
      ultimately show ?thesis
        using n 3 by (simp add: st'_eq st shown_stops_def len)
    qed
  qed
  have untouched: "\<forall>r. r \<noteq> b_stops st ! i \<and> r \<noteq> b_stops st ! j \<longrightarrow> b_heap st' r = b_heap st r"
    using h'other by (simp add: st'_eq st a_def b_def)
  have rows: "trip_stops (b_store st') =
           map (\<lambda>row. if s_id row = s_id (shown_stops st ! i)
                       then row\<lparr>s_order_index := s_order_index (shown_stops st ! j)\<rparr>
                       else if s_id row = s_id (shown_stops st ! j)
                       then row\<lparr>s_order_index := s_order_index (shown_stops st ! i)\<rparr>
                       else row)
               (trip_stops (b_store st))"
  proof -
    have "trip_stops db' =
           map (\<lambda>row. if s_id row = s_id (h (refs ! i))
                       then row\<lparr>s_order_index := s_order_index (h (refs ! j))\<rparr>
                       else if s_id row = s_id (h (refs ! j))
                       then row\<lparr>s_order_index := s_order_index (h (refs ! i))\<rparr>
                       else row)
               (trip_stops db)"
      unfolding db'_def a_def b_def by (rule swap_rows [OF idne])
    then show ?thesis
      unfolding shown by (simp add: st'_eq st)
  qed
  have indices: "map s_order_index (shown_stops st') = map s_order_index (shown_stops st)"
  proof -
    have "map s_order_index (shown_stops st') =
          (map s_order_index (shown_stops st))
            [i := s_order_index (shown_stops st ! i), j := s_order_index (shown_stops st ! j)]"
      by (simp add: view map_update)
    also have "\<dots> = (map s_order_index (shown_stops st))
            [i := map s_order_index (shown_stops st) ! i,
             j := map s_order_index (shown_stops st) ! j]"
      using i j by (simp add: shown_stops_def)
    also have "\<dots> = map s_order_index (shown_stops st)"
      by (simp only: list_update_id)
    finally show ?thesis .
  qed
  have inverse: "mirrors_store st \<longrightarrow>
            handleReorderStop (Some t) (s_id (shown_stops st' ! j))
              (if dir = Up then Down else Up) st' = st"
  proof
    assume m: "mirrors_store st"
    have d': "distinct (map (\<lambda>r. s_id (h' r)) refs')"
    proof -
      have "map (\<lambda>r. s_id (h' r)) refs' = map (\<lambda>r. s_id (h r)) refs'" by (simp add: id_same)
      also have "\<dots> = (map (\<lambda>r. s_id (h r)) refs)
                        [i := map (\<lambda>r. s_id (h r)) refs ! j, j := map (\<lambda>r. s_id (h r)) refs ! i]"
        unfolding refs'_def a_def b_def by (rule map_swap [OF i' j'])
      finally show ?thesis using d i' j' by (simp only: distinct_swap length_map)
    qed
    have adj': "((if dir = Up then Down else Up) = Up \<and> j = Suc i) \<or>
                ((if dir = Up then Down else Up) = Down \<and> i = Suc j)"
      using adj by auto
    have jlen: "j < length refs'" and ilen: "i < length refs'" using i' j' len by simp_all
    have undo_eq: "handleReorderStop (Some t) (s_id (h' (refs' ! j))) (if dir = Up then Down else Up)
           \<lparr>b_stops = refs', b_heap = h', b_store = db'\<rparr> =
         \<lparr>b_stops = refs'[j := refs' ! i, i := refs' ! j],
          b_heap = h'(refs' ! j := (h' (refs' ! j))\<lparr>s_order_index := s_order_index (h' (refs' ! i))\<rparr>,
                     refs' ! i := (h' (refs' ! i))\<lparr>s_order_index := s_order_index (h' (refs' ! j))\<rparr>),
          b_store = update_stop_order_index (s_id (h' (refs' ! i))) (s_order_index (h' (refs' ! j)))
                      (update_stop_order_index (s_id (h' (refs' ! j))) (s_order_index (h' (refs' ! i))) db')\<rparr>"
      by (rule reorder_explicit [OF d' jlen ilen adj'])
    have refs_back: "refs'[j := refs' ! i, i := refs' ! j] = refs"
    proof (rule nth_equalityI)
      show "length (refs'[j := refs' ! i, i := refs' ! j]) = length refs" by (simp add: len)
    next
      fix n assume "n < length (refs'[j := refs' ! i, i := refs' ! j])"
      then have n: "n < length refs" by (simp add: len)
      show "refs'[j := refs' ! i, i := refs' ! j] ! n = refs ! n"
        using n i' j' ij nth' by (auto simp: nth_list_update len refs'_def a_def b_def)
    qed
    have heap_back: "h'(refs' ! j := (h' (refs' ! j))\<lparr>s_order_index := s_order_index (h' (refs' ! i))\<rparr>,
                     refs' ! i := (h' (refs' ! i))\<lparr>s_order_index := s_order_index (h' (refs' ! j))\<rparr>) = h"
    proof (rule ext)
      fix r
      show "(h'(refs' ! j := (h' (refs' ! j))\<lparr>s_order_index := s_order_index (h' (refs' ! i))\<rparr>,
                     refs' ! i := (h' (refs' ! i))\<lparr>s_order_index := s_order_index (h' (refs' ! j))\<rparr>)) r = h r"
        using ab h'other [of r] by (simp add: nth' h'a h'b)
    qed
    have ma: "\<forall>row\<in>set (trip_stops db). s_id row = s_id (h a) \<longrightarrow> s_order_index row = s_order_index (h a)"
      using m i' by (auto simp: mirrors_store_def st shown_stops_def list_all_iff a_def)
    have mb: "\<forall>row\<in>set (trip_stops db). s_id row = s_id (h b) \<longrightarrow> s_order_index row = s_order_index (h b)"
      using m j' by (auto simp: mirrors_store_def st shown_stops_def list_all_iff b_def)
    have idne': "s_id (h a) \<noteq> s_id (h b)" using idne by (simp add: a_def b_def)
    have store_back: "update_stop_order_index (s_id (h' (refs' ! i))) (s_order_index (h' (refs' ! j)))
                      (update_stop_order_index (s_id (h' (refs' ! j))) (s_order_index (h' (refs' ! i))) db') = db"
      using update_twice_restores [OF idne' ma mb]
      by (simp add: nth' h'a h'b db'_def)
    have "shown_stops st' ! j = h' (refs' ! j)"
      using jlen by (simp add: st'_eq shown_stops_def)
    then show "handleReorderStop (Some t) (s_id (shown_stops st' ! j))
              (if dir = Up then Down else Up) st' = st"
      using undo_eq by (simp add: st'_eq st refs_back heap_back store_back)
  qed
  from view untouched rows indices inverse show ?thesis by blast
qed


lemma builder_example_shown: "shown_stops builder_example = three_stops"
  by (simp add: shown_stops_def builder_example_def three_stops_def)

theorem handleReorderStop_swap_and_inverse_witness:
  "distinct (map s_id (shown_stops builder_example)) \<and>
   mirrors_store builder_example \<and>
   map s_id (shown_stops (handleReorderStop (Some goa_trip) ''s2'' Up builder_example)) =
     [''s2'', ''s1'', ''s3''] \<and>
   map s_order_index (shown_stops (handleReorderStop (Some goa_trip) ''s2'' Up builder_example)) =
     [0, 1, 2] \<and>
   map (\<lambda>row. (s_id row, s_order_index row))
     (trip_stops (b_store (handleReorderStop (Some goa_trip) ''s2'' Up builder_example))) =
     [(''s1'', 1), (''s2'', 0), (''s3'', 2)] \<and>
   handleReorderStop (Some goa_trip) ''s2'' Down
     (handleReorderStop (Some goa_trip) ''s2'' Up builder_example) = builder_example"
proof -
  let ?st' = "handleReorderStop (Some goa_trip) ''s2'' Up builder_example"
  have ids: "distinct (map s_id (shown_stops builder_example))"
    by (simp add: builder_example_shown three_stops_def mk_stop_def)
  have m: "mirrors_store builder_example"
    by (simp add: mirrors_store_def builder_example_shown)
       (simp add: builder_example_def three_stop_store_def three_stops_def mk_stop_def)
  have i: "1 < length (b_stops builder_example)" and j: "0 < length (b_stops builder_example)"
    by (simp_all add: builder_example_def)
  have adj: "(Up = Up \<and> (1::nat) = Suc 0) \<or> (Up = Down \<and> (0::nat) = Suc 1)" by simp
  have sid: "s_id (shown_stops builder_example ! 1) = ''s2''"
    by (simp add: builder_example_shown three_stops_def mk_stop_def)
  have st': "?st' = handleReorderStop (Some goa_trip) (s_id (shown_stops builder_example ! 1)) Up
                      builder_example"
    by (simp only: sid)
  note main = handleReorderStop_swap_and_inverse [OF ids i j adj st']
  have view: "shown_stops ?st' =
      [(three_stops ! 1)\<lparr>s_order_index := 0\<rparr>, (three_stops ! 0)\<lparr>s_order_index := 1\<rparr>,
       three_stops ! 2]"
    unfolding main [THEN conjunct1] builder_example_shown
    by (simp add: three_stops_def mk_stop_def)
  have rows: "map (\<lambda>row. (s_id row, s_order_index row)) (trip_stops (b_store ?st')) =
     [(''s1'', 1), (''s2'', 0), (''s3'', 2)]"
    unfolding main [THEN conjunct2, THEN conjunct2, THEN conjunct1] builder_example_shown
    by (simp add: builder_example_def three_stop_store_def three_stops_def mk_stop_def)
  have sid': "s_id (shown_stops ?st' ! 0) = ''s2''"
    unfolding view by (simp add: three_stops_def mk_stop_def)
  have inv: "handleReorderStop (Some goa_trip) ''s2'' Down ?st' = builder_example"
    using main [THEN conjunct2, THEN conjunct2, THEN conjunct2, THEN conjunct2] m
    unfolding sid' by simp
  have names: "map s_id (shown_stops ?st') = [''s2'', ''s1'', ''s3'']"
    unfolding view by (simp add: three_stops_def mk_stop_def)
  have order: "map s_order_index (shown_stops ?st') = [0, 1, 2]"
    unfolding view by (simp add: three_stops_def mk_stop_def)
  from ids m names order rows inv show ?thesis by blast
qed


section \<open>Validation of an imported document\<close>

lemma validateImportedData_iff:
  "validateImportedData data \<longleftrightarrow>
     (\<exists>entries trip_entries stop_values activity_values.
        data = JObj entries \<and>
        map_of entries ''trip'' = Some (JObj trip_entries) \<and>
        nonempty_string (map_of trip_entries ''name'') \<and>
        map_of entries ''stops'' = Some (JArr stop_values) \<and>
        map_of entries ''activities'' = Some (JArr activity_values))"
proof (cases data)
  case (JObj entries)
  show ?thesis
  proof (cases "map_of entries ''trip''")
    case None
    then show ?thesis by (simp add: validateImportedData_def JObj get_prop_def)
  next
    case (Some t)
    show ?thesis
    proof (cases t)
      case (JObj trip_entries)
      have name: "(truthy (map_of trip_entries ''name'') \<and> typeof_string (map_of trip_entries ''name''))
                  = nonempty_string (map_of trip_entries ''name'')"
        by (cases "map_of trip_entries ''name''" rule: nonempty_string.cases) simp_all
      have arr: "\<And>v. isArray v = (\<exists>xs. v = Some (JArr xs))"
      proof -
        fix v show "isArray v = (\<exists>xs. v = Some (JArr xs))"
          by (cases v rule: isArray.cases) simp_all
      qed
      show ?thesis
        using name
        by (auto simp: validateImportedData_def \<open>data = JObj entries\<close> Some JObj get_prop_def arr
            Let_def)
    qed (simp_all add: validateImportedData_def \<open>data = JObj entries\<close> Some get_prop_def)
  qed
qed (simp_all add: validateImportedData_def get_prop_def)

text \<open>
  Claim C9. \<open>validateImportedData\<close> accepts a parsed value exactly when it is an object
  whose \<open>trip\<close> is an object with a non-empty string as \<open>name\<close> and whose \<open>stops\<close> and
  \<open>activities\<close> are arrays. When \<open>stops\<close> is not an array (or is missing), the
  validation fails, \<open>importTrip\<close> yields null, and \<open>handleImport\<close> reports the invalid
  file and returns the store as it was: nothing has been inserted.
\<close>

theorem validate_rejects_before_insert:
  "(validateImportedData data \<longleftrightarrow>
     (\<exists>entries trip_entries stop_values activity_values.
        data = JObj entries \<and>
        map_of entries ''trip'' = Some (JObj trip_entries) \<and>
        nonempty_string (map_of trip_entries ''name'') \<and>
        map_of entries ''stops'' = Some (JArr stop_values) \<and>
        map_of entries ''activities'' = Some (JArr activity_values))) \<and>
   (\<not> isArray (get_prop data ''stops'') \<longrightarrow>
      \<not> validateImportedData data \<and>
      importTrip (Text (Some data)) = None \<and>
      handleImport (Some (Text (Some data))) (Some userId) random s =
        (ToastError ''Invalid trip file format'', s))"
proof -
  have "\<not> isArray (get_prop data ''stops'') \<longrightarrow> \<not> validateImportedData data"
    by (simp add: validateImportedData_def)
  then show ?thesis
    using validateImportedData_iff [of data]
    by (auto simp: importTrip_def handleImport_def)
qed

theorem validate_rejects_before_insert_witness:
  "\<not> isArray (get_prop document_without_stops ''stops'') \<and>
   \<not> validateImportedData document_without_stops \<and>
   handleImport (Some (Text (Some document_without_stops))) (Some ''u2'') two_codes goa_store =
     (ToastError ''Invalid trip file format'', goa_store)"
proof -
  have h: "\<not> isArray (get_prop document_without_stops ''stops'')"
    by (simp add: document_without_stops_def get_prop_def)
  note main = validate_rejects_before_insert
      [of document_without_stops "''u2''" two_codes goa_store, THEN conjunct2, rule_format, OF h]
  from h main show ?thesis by blast
qed


section \<open>Reading back what was written\<close>

lemma as_TripActivity_json [simp]: "as_TripActivity (json_of_activity a) = a"
  by (cases a)
     (simp add: as_TripActivity_def json_of_activity_def get_prop_def string_of_json_def
       string_option_of_json_def date_option_of_json_def number_of_json_def integer_of_json_def
       bool_of_json_def json_of_string_option_def json_of_date_option_def split: option.splits)

lemma as_TripActivity_map [simp]: "map (as_TripActivity \<circ> json_of_activity) as = as"
  by (induction as) simp_all

lemma as_TripStop_json [simp]: "as_TripStop (json_of_stop s) = s"
  by (cases s)
     (simp add: as_TripStop_def json_of_stop_def get_prop_def string_of_json_def
       string_option_of_json_def date_option_of_json_def number_of_json_def integer_of_json_def
       json_of_string_option_def json_of_date_option_def comp_def split: option.splits)

lemma as_TripStop_map [simp]: "map (as_TripStop \<circ> json_of_stop) ss = ss"
  by (induction ss) simp_all

lemma as_Trip_json [simp]: "as_Trip (Some (json_of_trip t)) = t"
  by (cases t)
     (simp add: as_Trip_def json_of_trip_def get_prop_def string_of_json_def
       string_option_of_json_def date_option_of_json_def number_of_json_def
       bool_of_json_def json_of_string_option_def json_of_date_option_def split: option.splits)

lemma as_ExportedTrip_json [simp]: "as_ExportedTrip (json_of_document d) = d"
  by (cases d)
     (simp add: as_ExportedTrip_def json_of_document_def get_prop_def string_of_json_def
       array_of_json_def)

lemma validate_json_of_document:
  "validateImportedData (json_of_document d) = (t_name (doc_trip d) \<noteq> [])"
  by (simp add: validateImportedData_def json_of_document_def json_of_trip_def get_prop_def)

section \<open>The insert loops of the import\<close>

lemma new_id_inj: "new_id m = new_id n \<longleftrightarrow> m = n"
proof
  assume "new_id m = new_id n"
  then have "length (new_id m) = length (new_id n)" by simp
  then show "m = n" by (simp add: new_id_def)
qed simp

lemma new_id_nonempty: "new_id n \<noteq> []"
  by (simp add: new_id_def)

lemma length_created_stops [simp]: "length (created_stops n tid ps) = length ps"
  by (induction ps arbitrary: n) simp_all

lemma nth_created_stops:
  "i < length ps \<Longrightarrow>
     created_stops n tid ps ! i =
       StopData.extend (StopData.truncate (ps ! i)) (TripStop.fields (new_id (n + i)) tid)"
proof (induction ps arbitrary: n i)
  case Nil
  then show ?case by simp
next
  case (Cons p ps)
  then show ?case by (cases i) simp_all
qed

lemma ids_created_stops: "map s_id (created_stops n tid ps) = map new_id [n..<n + length ps]"
proof (induction ps arbitrary: n)
  case Nil
  then show ?case by simp
next
  case (Cons p ps)
  have "[n..<n + length (p # ps)] = n # [Suc n..<n + length (p # ps)]"
    by (rule upt_conv_Cons) simp
  then show ?case
    by (simp add: Cons.IH StopData.defs TripStop.defs)
qed

lemma distinct_created_stops: "distinct (map s_id (created_stops n tid ps))"
  by (simp add: ids_created_stops distinct_map inj_on_def new_id_inj)

lemma insert_imported_stops_step:
  "insert_imported_stops tid (p # ps) (m, s) =
     insert_imported_stops tid ps
       (if s_original_stop_id p \<noteq> [] then m(s_original_stop_id p \<mapsto> new_id (next_id s)) else m,
        s\<lparr>trip_stops := trip_stops s @
             [StopData.extend (StopData.truncate p) (TripStop.fields (new_id (next_id s)) tid)],
          next_id := Suc (next_id s)\<rparr>)"
  by (simp add: insert_trip_stop_def Let_def StopData.defs TripStop.defs)

lemma insert_imported_stops_store:
  "snd (insert_imported_stops tid ps (m, s)) =
     s\<lparr>trip_stops := trip_stops s @ created_stops (next_id s) tid ps,
       next_id := next_id s + length ps\<rparr>"
proof (induction ps arbitrary: m s)
  case Nil
  then show ?case by simp
next
  case (Cons p ps)
  show ?case
    by (simp add: insert_trip_stop_def Let_def Cons.IH)
qed

lemma insert_imported_stops_other_key:
  "k \<notin> set (map s_original_stop_id ps) \<Longrightarrow> fst (insert_imported_stops tid ps (m, s)) k = m k"
proof (induction ps arbitrary: m s)
  case Nil
  then show ?case by simp
next
  case (Cons p ps)
  then show ?case
    by (simp add: insert_trip_stop_def Let_def)
qed

lemma insert_imported_stops_key:
  assumes "distinct (map s_original_stop_id ps)"
    and "\<forall>p\<in>set ps. s_original_stop_id p \<noteq> []"
    and "i < length ps"
  shows "fst (insert_imported_stops tid ps (m, s)) (s_original_stop_id (ps ! i)) =
           Some (new_id (next_id s + i))"
  using assms
proof (induction ps arbitrary: m s i)
  case Nil
  then show ?case by simp
next
  case (Cons p ps)
  show ?case
  proof (cases i)
    case 0
    have "s_original_stop_id p \<notin> set (map s_original_stop_id ps)"
      using Cons.prems(1) by simp
    then show ?thesis
      using Cons.prems(2) 0
      by (simp add: insert_trip_stop_def Let_def insert_imported_stops_other_key
          StopData.defs TripStop.defs)
  next
    case (Suc i')
    have "fst (insert_imported_stops tid ps
                 (m(s_original_stop_id p \<mapsto> new_id (next_id s)),
                  s\<lparr>trip_stops := trip_stops s @
                        [StopData.extend (StopData.truncate p) (TripStop.fields (new_id (next_id s)) tid)],
                    next_id := Suc (next_id s)\<rparr>))
            (s_original_stop_id (ps ! i')) =
          Some (new_id (next_id (s\<lparr>trip_stops := trip_stops s @
                        [StopData.extend (StopData.truncate p) (TripStop.fields (new_id (next_id s)) tid)],
                    next_id := Suc (next_id s)\<rparr>) + i'))"
      using Cons.prems Suc by (intro Cons.IH) simp_all
    then show ?thesis
      using Cons.prems(2) Suc
      by (simp add: insert_trip_stop_def Let_def StopData.defs TripStop.defs)
  qed
qed

lemma insert_imported_stops_range:
  "fst (insert_imported_stops tid ps (m, s)) k = Some v \<Longrightarrow>
     m k = Some v \<or> v \<in> set (map new_id [next_id s..<next_id s + length ps])"
proof (induction ps arbitrary: m s)
  case Nil
  then show ?case by simp
next
  case (Cons p ps)
  let ?s1 = "s\<lparr>trip_stops := trip_stops s @
                 [StopData.extend (StopData.truncate p) (TripStop.fields (new_id (next_id s)) tid)],
               next_id := Suc (next_id s)\<rparr>"
  let ?m1 = "(if s_original_stop_id p \<noteq> [] then m(s_original_stop_id p \<mapsto> new_id (next_id s))
             else m)"
  have step: "fst (insert_imported_stops tid ps (?m1, ?s1)) k = Some v"
    using Cons.prems by (simp only: insert_imported_stops_step)
  have "?m1 k = Some v \<or> v \<in> set (map new_id [next_id ?s1..<next_id ?s1 + length ps])"
    by (rule Cons.IH [OF step])
  moreover have "[next_id s..<next_id s + length (p # ps)] =
                 next_id s # [Suc (next_id s)..<next_id s + length (p # ps)]"
    by (rule upt_conv_Cons) simp
  ultimately show ?case
    by (auto split: if_splits)
qed

lemma length_created_activities [simp]: "length (created_activities n ps) = length ps"
  by (induction ps arbitrary: n) simp_all

lemma insert_trip_activities_store:
  "insert_trip_activities ps s =
     s\<lparr>trip_activities := trip_activities s @ created_activities (next_id s) ps,
       next_id := next_id s + length ps\<rparr>"
proof (induction ps arbitrary: s)
  case Nil
  then show ?case by (simp add: insert_trip_activities_def)
next
  case (Cons p ps)
  have "insert_trip_activities (p # ps) s = insert_trip_activities ps (insert_trip_activity s p)"
    by (simp add: insert_trip_activities_def)
  also have "\<dots> = (insert_trip_activity s p)
       \<lparr>trip_activities := trip_activities (insert_trip_activity s p) @
           created_activities (next_id (insert_trip_activity s p)) ps,
        next_id := next_id (insert_trip_activity s p) + length ps\<rparr>"
    by (rule Cons.IH)
  also have "\<dots> = s\<lparr>trip_activities := trip_activities s @ created_activities (next_id s) (p # ps),
       next_id := next_id s + length (p # ps)\<rparr>"
    by (simp add: insert_trip_activity_def Let_def)
  finally show ?case .
qed

lemma created_activities_of_stop:
  "map ActivityData.truncate (filter (\<lambda>a. trip_stop_id a = x) (created_activities n ps)) =
     map fst (filter (\<lambda>p. snd p = x) ps)"
  by (induction ps arbitrary: n) (simp_all add: ActivityData.defs TripActivity.defs)

lemma created_activities_stop_ids:
  "trip_stop_id ` set (created_activities n ps) = snd ` set ps"
  by (induction ps arbitrary: n) (simp_all add: ActivityData.defs TripActivity.defs)


section \<open>Import of an exported trip\<close>

lemma prepared_stop_fields [simp]:
  "s_original_stop_id (StopData.extend d (PreparedStop.fields x)) = x"
  "StopData.truncate (StopData.extend d (PreparedStop.fields x)) = d"
  "(StopData.truncate stop)\<lparr>s_order_index := s_order_index stop\<rparr> = StopData.truncate stop"
  by (simp_all add: StopData.defs PreparedStop.defs)

lemma prepared_activity_fields [simp]:
  "a_original_stop_id (ActivityData.extend d (PreparedActivity.fields x)) = x"
  "ActivityData.truncate (ActivityData.extend d (PreparedActivity.fields x)) = d"
  "(ActivityData.truncate a)\<lparr>a_order_index := a_order_index a\<rparr> = ActivityData.truncate a"
  by (simp_all add: ActivityData.defs PreparedActivity.defs)

lemma p_stops_prepare:
  "p_stops (prepareImportedTripForInsert d uid) =
     map (\<lambda>stop. StopData.extend ((StopData.truncate stop)\<lparr>s_order_index := or_zero (s_order_index stop)\<rparr>)
                   (PreparedStop.fields (s_id stop))) (doc_stops d)"
  by (simp add: prepareImportedTripForInsert_def Let_def)

lemma p_activities_prepare:
  "p_activities (prepareImportedTripForInsert d uid) =
     map (\<lambda>a. ActivityData.extend ((ActivityData.truncate a)\<lparr>a_order_index := or_zero (a_order_index a)\<rparr>)
                (PreparedActivity.fields (trip_stop_id a))) (doc_activities d)"
  by (simp add: prepareImportedTripForInsert_def Let_def)

lemma p_trip_prepare:
  "p_trip (prepareImportedTripForInsert d uid) =
     (TripData.truncate (doc_trip d))
       \<lparr>user_id := uid, t_name := t_name (doc_trip d) @ '' (Imported)'', is_public := False,
        share_code := None\<rparr>"
  by (simp add: prepareImportedTripForInsert_def Let_def TripData.defs)

lemma original_ids_prepare:
  "map s_original_stop_id (p_stops (prepareImportedTripForInsert d uid)) = map s_id (doc_stops d)"
  by (simp add: p_stops_prepare comp_def)

lemma handleImport_valid:
  assumes "validateImportedData data"
  shows "handleImport (Some (Text (Some data))) (Some uid) random s =
     (let P = prepareImportedTripForInsert (as_ExportedTrip data) uid;
          T = TripData.extend ((p_trip P)\<lparr>share_code := Some (random 0)\<rparr>)
                (Trip.fields (new_id (next_id s)) (clock s) (clock s));
          s1 = s\<lparr>trips := trips s @ [T], next_id := Suc (next_id s)\<rparr>;
          M = fst (insert_imported_stops (new_id (next_id s)) (p_stops P) (Map.empty, s1));
          S = created_stops (Suc (next_id s)) (new_id (next_id s)) (p_stops P);
          payloads = map (\<lambda>a. (ActivityData.truncate a, the (M (a_original_stop_id a))))
                       (filter (\<lambda>a. a_original_stop_id a \<noteq> [] \<and> M (a_original_stop_id a) \<noteq> None)
                          (p_activities P));
          A = created_activities (Suc (next_id s) + length (p_stops P)) payloads
      in (ToastSuccess ''Trip imported successfully!'',
          s\<lparr>trips := trips s @ [T], trip_stops := trip_stops s @ S,
            trip_activities := trip_activities s @ A,
            next_id := Suc (next_id s) + length (p_stops P) + length payloads\<rparr>))"
proof -
  have imp: "importTrip (Text (Some data)) = Some data"
    using assms by (simp add: importTrip_def)
  define P where "P = prepareImportedTripForInsert (as_ExportedTrip data) uid"
  define T where "T = TripData.extend ((p_trip P)\<lparr>share_code := Some (random 0)\<rparr>)
                (Trip.fields (new_id (next_id s)) (clock s) (clock s))"
  define s1 where "s1 = s\<lparr>trips := trips s @ [T], next_id := Suc (next_id s)\<rparr>"
  define L where "L = insert_imported_stops (new_id (next_id s)) (p_stops P) (Map.empty, s1)"
  define payloads where "payloads = map (\<lambda>a. (ActivityData.truncate a, the (fst L (a_original_stop_id a))))
                       (filter (\<lambda>a. a_original_stop_id a \<noteq> [] \<and> fst L (a_original_stop_id a) \<noteq> None)
                          (p_activities P))"
  have ins: "insert_trip ((p_trip P)\<lparr>share_code := Some (random 0)\<rparr>) s = (T, s1)"
    by (simp add: insert_trip_def T_def s1_def Let_def)
  have tid: "t_id T = new_id (next_id s)"
    by (simp add: T_def TripData.defs Trip.defs)
  have sndL: "snd L = s1\<lparr>trip_stops := trip_stops s1 @ created_stops (next_id s1) (new_id (next_id s)) (p_stops P),
                         next_id := next_id s1 + length (p_stops P)\<rparr>"
    unfolding L_def by (rule insert_imported_stops_store)
  have final: "(if 0 < length payloads then insert_trip_activities payloads (snd L) else snd L) =
      (snd L)\<lparr>trip_activities := trip_activities (snd L) @ created_activities (next_id (snd L)) payloads,
              next_id := next_id (snd L) + length payloads\<rparr>"
    by (cases payloads) (simp_all add: insert_trip_activities_store)
  have "handleImport (Some (Text (Some data))) (Some uid) random s =
        (ToastSuccess ''Trip imported successfully!'',
         (if 0 < length payloads then insert_trip_activities payloads (snd L) else snd L))"
    unfolding handleImport_def payloads_def
    by (simp add: imp P_def [symmetric] ins tid L_def [symmetric] case_prod_beta Let_def)
  also have "\<dots> = (ToastSuccess ''Trip imported successfully!'',
          s\<lparr>trips := trips s @ [T],
            trip_stops := trip_stops s @ created_stops (Suc (next_id s)) (new_id (next_id s)) (p_stops P),
            trip_activities := trip_activities s @
               created_activities (Suc (next_id s) + length (p_stops P)) payloads,
            next_id := Suc (next_id s) + length (p_stops P) + length payloads\<rparr>)"
    unfolding final
    unfolding sndL by (simp add: s1_def)
  finally show ?thesis
    by (simp add: Let_def P_def T_def s1_def L_def payloads_def)
qed


lemma payload_filter:
  "map fst (filter (\<lambda>p. snd p = x) (map (\<lambda>a. (g a, h a)) (filter Q xs))) =
     map g (filter (\<lambda>a. Q a \<and> h a = x) xs)"
  by (induction xs) auto

text \<open>
  Claim C1. Let a trip with a non-empty name, stops with pairwise distinct non-empty
  identifiers and any list of activities be exported, and let the exported file be
  imported by a signed-in user. Then the document passes the validation, the import
  succeeds, and the store gains exactly one trip, one stop per source stop and the
  activities that refer to a source stop. The new trip has the fields of the source
  except that \<open>user_id\<close> is the importing user, the name has the suffix \<open>(Imported)\<close>,
  \<open>is_public\<close> is false and \<open>share_code\<close> is a fresh random code (identifier and
  timestamps are assigned by the store). The new stops have pairwise distinct
  identifiers; the stop at each position has all fields of the source stop at that
  position except identifier and trip reference, which is the new trip; and the
  activities attached to it are, in order and with all fields except identifier and
  stop reference, the activities of the corresponding source stop. No new activity
  refers to anything but a new stop, and when every source activity refers to a source
  stop none is dropped. The witness is a trip with two stops holding three and two
  activities.
\<close>

theorem import_of_export_is_isomorphic:
  assumes name: "t_name trip \<noteq> []"
    and ids: "distinct (map s_id stops)"
    and nonempty: "\<forall>st\<in>set stops. s_id st \<noteq> []"
    and res: "handleImport (Some (Text (Some (exportTrip now trip stops acts)))) (Some uid) random s =
                (toast, s')"
  shows "validateImportedData (exportTrip now trip stops acts) \<and>
         toast = ToastSuccess ''Trip imported successfully!'' \<and>
         (\<exists>T S A.
            trips s' = trips s @ [T] \<and>
            trip_stops s' = trip_stops s @ S \<and>
            trip_activities s' = trip_activities s @ A \<and>
            TripData.truncate T =
              (TripData.truncate trip)
                \<lparr>user_id := uid, t_name := t_name trip @ '' (Imported)'', is_public := False,
                 share_code := Some (random 0)\<rparr> \<and>
            length S = length stops \<and>
            distinct (map s_id S) \<and>
            (\<forall>i<length stops.
               StopData.truncate (S ! i) = StopData.truncate (stops ! i) \<and>
               trip_id (S ! i) = t_id T \<and>
               map ActivityData.truncate (filter (\<lambda>a. trip_stop_id a = s_id (S ! i)) A) =
               map ActivityData.truncate (filter (\<lambda>a. trip_stop_id a = s_id (stops ! i)) acts)) \<and>
            (\<forall>a\<in>set A. trip_stop_id a \<in> s_id ` set S) \<and>
            ((\<forall>a\<in>set acts. trip_stop_id a \<in> s_id ` set stops) \<longrightarrow> length A = length acts))"
proof -
  define d where "d = \<lparr>doc_version = EXPORT_VERSION, doc_trip = trip, doc_stops = stops,
                        doc_activities = acts, doc_exportedAt = now\<rparr>"
  have ex: "exportTrip now trip stops acts = json_of_document d"
    by (simp add: exportTrip_def d_def)
  have valid: "validateImportedData (exportTrip now trip stops acts)"
    using name by (simp add: ex validate_json_of_document d_def)
  define n0 where "n0 = next_id s"
  define P where "P = prepareImportedTripForInsert d uid"
  define T where "T = TripData.extend ((p_trip P)\<lparr>share_code := Some (random 0)\<rparr>)
                (Trip.fields (new_id n0) (clock s) (clock s))"
  define s1 where "s1 = s\<lparr>trips := trips s @ [T], next_id := Suc n0\<rparr>"
  define M where "M = fst (insert_imported_stops (new_id n0) (p_stops P) (Map.empty, s1))"
  define S where "S = created_stops (Suc n0) (new_id n0) (p_stops P)"
  define known where "known = (\<lambda>a::PreparedActivity. a_original_stop_id a \<noteq> [] \<and> M (a_original_stop_id a) \<noteq> None)"
  define payloads where "payloads = map (\<lambda>a. (ActivityData.truncate a, the (M (a_original_stop_id a))))
                       (filter known (p_activities P))"
  define A where "A = created_activities (Suc n0 + length (p_stops P)) payloads"
  have explicit: "handleImport (Some (Text (Some (exportTrip now trip stops acts)))) (Some uid) random s =
      (ToastSuccess ''Trip imported successfully!'',
       s\<lparr>trips := trips s @ [T], trip_stops := trip_stops s @ S,
         trip_activities := trip_activities s @ A,
         next_id := Suc n0 + length (p_stops P) + length payloads\<rparr>)"
  proof -
    have valid': "validateImportedData (json_of_document d)" using valid by (simp only: ex)
    show ?thesis
      unfolding ex
      by (simp add: handleImport_valid [OF valid'] Let_def P_def T_def s1_def M_def S_def
          known_def payloads_def A_def n0_def)
  qed
  have toast: "toast = ToastSuccess ''Trip imported successfully!''"
    and s': "s' = s\<lparr>trips := trips s @ [T], trip_stops := trip_stops s @ S,
         trip_activities := trip_activities s @ A,
         next_id := Suc n0 + length (p_stops P) + length payloads\<rparr>"
    using res explicit by simp_all
  have len_p: "length (p_stops P) = length stops"
    by (simp add: P_def p_stops_prepare d_def)
  have orig: "map s_original_stop_id (p_stops P) = map s_id stops"
    by (simp add: P_def original_ids_prepare d_def)
  have orig_nth: "\<And>i. i < length stops \<Longrightarrow> s_original_stop_id (p_stops P ! i) = s_id (stops ! i)"
  proof -
    fix i assume i: "i < length stops"
    have "map s_original_stop_id (p_stops P) ! i = map s_id stops ! i" by (simp only: orig)
    then show "s_original_stop_id (p_stops P ! i) = s_id (stops ! i)"
      using i len_p by simp
  qed
  have trunc_nth: "\<And>i. i < length stops \<Longrightarrow> StopData.truncate (p_stops P ! i) = StopData.truncate (stops ! i)"
    by (simp add: P_def p_stops_prepare d_def)
  have tidT: "t_id T = new_id n0"
    by (simp add: T_def TripData.defs Trip.defs)
  have truncT: "TripData.truncate T =
              (TripData.truncate trip)
                \<lparr>user_id := uid, t_name := t_name trip @ '' (Imported)'', is_public := False,
                 share_code := Some (random 0)\<rparr>"
    by (simp add: T_def P_def p_trip_prepare d_def TripData.defs Trip.defs)
  have lenS: "length S = length stops" by (simp add: S_def len_p)
  have distS: "distinct (map s_id S)" unfolding S_def by (rule distinct_created_stops)
  have S_nth: "\<And>i. i < length stops \<Longrightarrow>
      S ! i = StopData.extend (StopData.truncate (stops ! i)) (TripStop.fields (new_id (Suc n0 + i)) (new_id n0))"
    by (simp add: S_def nth_created_stops len_p trunc_nth)
  have S_fields: "\<And>i. i < length stops \<Longrightarrow>
      StopData.truncate (S ! i) = StopData.truncate (stops ! i) \<and> trip_id (S ! i) = new_id n0 \<and>
      s_id (S ! i) = new_id (Suc n0 + i)"
    by (simp add: S_nth StopData.defs TripStop.defs)
  have ids_S: "set (map s_id S) = set (map new_id [Suc n0..<Suc n0 + length stops])"
    by (simp add: S_def ids_created_stops len_p)
  \<comment> \<open>the identifier map\<close>
  have dist_orig: "distinct (map s_original_stop_id (p_stops P))" using ids by (simp only: orig)
  have ne_orig: "\<forall>p\<in>set (p_stops P). s_original_stop_id p \<noteq> []"
  proof
    fix p assume "p \<in> set (p_stops P)"
    then have "s_original_stop_id p \<in> set (map s_original_stop_id (p_stops P))" by simp
    then have "s_original_stop_id p \<in> set (map s_id stops)" by (simp only: orig)
    then show "s_original_stop_id p \<noteq> []" using nonempty by auto
  qed
  have M_key: "\<And>i. i < length stops \<Longrightarrow> M (s_id (stops ! i)) = Some (new_id (Suc n0 + i))"
  proof -
    fix i assume i: "i < length stops"
    then have "i < length (p_stops P)" by (simp add: len_p)
    from insert_imported_stops_key [OF dist_orig ne_orig this, of "new_id n0" Map.empty s1]
    show "M (s_id (stops ! i)) = Some (new_id (Suc n0 + i))"
      by (simp add: M_def orig_nth [OF i] s1_def)
  qed
  have M_other: "\<And>k. k \<notin> set (map s_id stops) \<Longrightarrow> M k = None"
  proof -
    fix k assume "k \<notin> set (map s_id stops)"
    then have "k \<notin> set (map s_original_stop_id (p_stops P))" unfolding orig .
    from insert_imported_stops_other_key [OF this, of "new_id n0" Map.empty s1]
    show "M k = None" by (simp add: M_def)
  qed
  have M_range: "\<And>k v. M k = Some v \<Longrightarrow> v \<in> set (map s_id S)"
  proof -
    fix k v assume "M k = Some v"
    then have "Map.empty k = Some v \<or>
               v \<in> set (map new_id [next_id s1..<next_id s1 + length (p_stops P)])"
      unfolding M_def by (rule insert_imported_stops_range)
    then have "v \<in> set (map new_id [next_id s1..<next_id s1 + length (p_stops P)])" by simp
    moreover have "next_id s1 = Suc n0" by (simp add: s1_def)
    ultimately have "v \<in> set (map new_id [Suc n0..<Suc n0 + length stops])"
      unfolding len_p by simp
    then show "v \<in> set (map s_id S)" unfolding ids_S .
  qed
  have target: "\<And>k i. i < length stops \<Longrightarrow>
      (k \<noteq> [] \<and> M k \<noteq> None \<and> the (M k) = new_id (Suc n0 + i)) = (k = s_id (stops ! i))"
  proof -
    fix k i assume i: "i < length stops"
    show "(k \<noteq> [] \<and> M k \<noteq> None \<and> the (M k) = new_id (Suc n0 + i)) = (k = s_id (stops ! i))"
    proof
      assume a: "k \<noteq> [] \<and> M k \<noteq> None \<and> the (M k) = new_id (Suc n0 + i)"
      then have mk: "M k \<noteq> None" and tk: "the (M k) = new_id (Suc n0 + i)" by blast+
      have "k \<in> set (map s_id stops)"
      proof (rule ccontr)
        assume "k \<notin> set (map s_id stops)"
        then have "M k = None" by (rule M_other)
        with mk show False by contradiction
      qed
      then obtain j where j: "j < length stops" and kj: "s_id (stops ! j) = k"
        unfolding in_set_conv_nth by auto
      have "M (s_id (stops ! j)) = Some (new_id (Suc n0 + j))" by (rule M_key [OF j])
      then have "M k = Some (new_id (Suc n0 + j))" unfolding kj .
      then have "the (M k) = new_id (Suc n0 + j)" by simp
      then have "new_id (Suc n0 + j) = new_id (Suc n0 + i)" unfolding tk by simp
      then have "Suc n0 + j = Suc n0 + i" unfolding new_id_inj .
      then have "j = i" by simp
      then show "k = s_id (stops ! i)" using kj by blast
    next
      assume k: "k = s_id (stops ! i)"
      have ne: "s_id (stops ! i) \<noteq> []" using nonempty i by simp
      have "M (s_id (stops ! i)) = Some (new_id (Suc n0 + i))" by (rule M_key [OF i])
      then have "M k \<noteq> None" "the (M k) = new_id (Suc n0 + i)" unfolding k by simp_all
      moreover have "k \<noteq> []" unfolding k by (rule ne)
      ultimately show "k \<noteq> [] \<and> M k \<noteq> None \<and> the (M k) = new_id (Suc n0 + i)" by blast
    qed
  qed
  have per_stop: "\<And>i. i < length stops \<Longrightarrow>
      map ActivityData.truncate (filter (\<lambda>a. trip_stop_id a = s_id (S ! i)) A) =
      map ActivityData.truncate (filter (\<lambda>a. trip_stop_id a = s_id (stops ! i)) acts)"
  proof -
    fix i assume i: "i < length stops"
    have pa: "p_activities P =
        map (\<lambda>a. ActivityData.extend ((ActivityData.truncate a)\<lparr>a_order_index := or_zero (a_order_index a)\<rparr>)
                   (PreparedActivity.fields (trip_stop_id a))) acts"
      by (simp add: P_def p_activities_prepare d_def)
    have "map ActivityData.truncate (filter (\<lambda>a. trip_stop_id a = s_id (S ! i)) A) =
          map fst (filter (\<lambda>p. snd p = new_id (Suc n0 + i)) payloads)"
      using S_fields [OF i] by (simp add: A_def created_activities_of_stop)
    also have "\<dots> = map ActivityData.truncate
        (filter (\<lambda>a. known a \<and> the (M (a_original_stop_id a)) = new_id (Suc n0 + i)) (p_activities P))"
      unfolding payloads_def by (rule payload_filter)
    also have "\<dots> = map ActivityData.truncate
        (filter (\<lambda>a. a_original_stop_id a = s_id (stops ! i)) (p_activities P))"
    proof -
      have "filter (\<lambda>a. known a \<and> the (M (a_original_stop_id a)) = new_id (Suc n0 + i)) (p_activities P) =
            filter (\<lambda>a. a_original_stop_id a = s_id (stops ! i)) (p_activities P)"
      proof (rule filter_cong [OF refl])
        fix a
        show "(known a \<and> the (M (a_original_stop_id a)) = new_id (Suc n0 + i)) =
              (a_original_stop_id a = s_id (stops ! i))"
          using target [OF i, of "a_original_stop_id a"] unfolding known_def by blast
      qed
      then show ?thesis by (rule arg_cong)
    qed
    also have "\<dots> = map ActivityData.truncate (filter (\<lambda>a. trip_stop_id a = s_id (stops ! i)) acts)"
      by (simp add: pa filter_map comp_def)
    finally show "map ActivityData.truncate (filter (\<lambda>a. trip_stop_id a = s_id (S ! i)) A) =
      map ActivityData.truncate (filter (\<lambda>a. trip_stop_id a = s_id (stops ! i)) acts)" .
  qed
  have attached: "\<forall>a\<in>set A. trip_stop_id a \<in> s_id ` set S"
  proof
    fix a assume "a \<in> set A"
    then have "trip_stop_id a \<in> snd ` set payloads"
      using created_activities_stop_ids [of "Suc n0 + length (p_stops P)" payloads]
      by (auto simp: A_def)
    then obtain pa where "known pa" and "trip_stop_id a = the (M (a_original_stop_id pa))"
      by (auto simp: payloads_def)
    then obtain v where "M (a_original_stop_id pa) = Some v" and "trip_stop_id a = v"
      by (auto simp: known_def)
    then have "trip_stop_id a \<in> set (map s_id S)" using M_range by blast
    then show "trip_stop_id a \<in> s_id ` set S" by simp
  qed
  have complete: "(\<forall>a\<in>set acts. trip_stop_id a \<in> s_id ` set stops) \<longrightarrow> length A = length acts"
  proof
    assume all: "\<forall>a\<in>set acts. trip_stop_id a \<in> s_id ` set stops"
    have "\<forall>pa\<in>set (p_activities P). known pa"
    proof
      fix pa assume "pa \<in> set (p_activities P)"
      then obtain a where a: "a \<in> set acts" and pa: "a_original_stop_id pa = trip_stop_id a"
        by (auto simp: P_def p_activities_prepare d_def)
      then have "trip_stop_id a \<in> set (map s_id stops)" using all by simp
      then obtain j where j: "j < length stops" and kj: "trip_stop_id a = s_id (stops ! j)"
        by (auto simp: in_set_conv_nth)
      have "s_id (stops ! j) \<noteq> []" using nonempty j by simp
      then show "known pa" using M_key [OF j] kj pa by (simp add: known_def)
    qed
    then have "filter known (p_activities P) = p_activities P" by (simp add: filter_id_conv)
    then show "length A = length acts"
      by (simp add: A_def payloads_def P_def p_activities_prepare d_def)
  qed
  have fields: "\<forall>i<length stops.
               StopData.truncate (S ! i) = StopData.truncate (stops ! i) \<and>
               trip_id (S ! i) = t_id T \<and>
               map ActivityData.truncate (filter (\<lambda>a. trip_stop_id a = s_id (S ! i)) A) =
               map ActivityData.truncate (filter (\<lambda>a. trip_stop_id a = s_id (stops ! i)) acts)"
  proof (intro allI impI)
    fix i assume i: "i < length stops"
    show "StopData.truncate (S ! i) = StopData.truncate (stops ! i) \<and>
               trip_id (S ! i) = t_id T \<and>
               map ActivityData.truncate (filter (\<lambda>a. trip_stop_id a = s_id (S ! i)) A) =
               map ActivityData.truncate (filter (\<lambda>a. trip_stop_id a = s_id (stops ! i)) acts)"
      using S_fields [OF i] per_stop [OF i] tidT by (simp only: simp_thms)
  qed
  have rows: "trips s' = trips s @ [T]" "trip_stops s' = trip_stops s @ S"
    "trip_activities s' = trip_activities s @ A"
    by (simp_all add: s')
  have "trips s' = trips s @ [T] \<and>
            trip_stops s' = trip_stops s @ S \<and>
            trip_activities s' = trip_activities s @ A \<and>
            TripData.truncate T =
              (TripData.truncate trip)
                \<lparr>user_id := uid, t_name := t_name trip @ '' (Imported)'', is_public := False,
                 share_code := Some (random 0)\<rparr> \<and>
            length S = length stops \<and>
            distinct (map s_id S) \<and>
            (\<forall>i<length stops.
               StopData.truncate (S ! i) = StopData.truncate (stops ! i) \<and>
               trip_id (S ! i) = t_id T \<and>
               map ActivityData.truncate (filter (\<lambda>a. trip_stop_id a = s_id (S ! i)) A) =
               map ActivityData.truncate (filter (\<lambda>a. trip_stop_id a = s_id (stops ! i)) acts)) \<and>
            (\<forall>a\<in>set A. trip_stop_id a \<in> s_id ` set S) \<and>
            ((\<forall>a\<in>set acts. trip_stop_id a \<in> s_id ` set stops) \<longrightarrow> length A = length acts)"
    using rows truncT lenS distS fields attached complete by (intro conjI)
  then have "\<exists>T S A.
            trips s' = trips s @ [T] \<and>
            trip_stops s' = trip_stops s @ S \<and>
            trip_activities s' = trip_activities s @ A \<and>
            TripData.truncate T =
              (TripData.truncate trip)
                \<lparr>user_id := uid, t_name := t_name trip @ '' (Imported)'', is_public := False,
                 share_code := Some (random 0)\<rparr> \<and>
            length S = length stops \<and>
            distinct (map s_id S) \<and>
            (\<forall>i<length stops.
               StopData.truncate (S ! i) = StopData.truncate (stops ! i) \<and>
               trip_id (S ! i) = t_id T \<and>
               map ActivityData.truncate (filter (\<lambda>a. trip_stop_id a = s_id (S ! i)) A) =
               map ActivityData.truncate (filter (\<lambda>a. trip_stop_id a = s_id (stops ! i)) acts)) \<and>
            (\<forall>a\<in>set A. trip_stop_id a \<in> s_id ` set S) \<and>
            ((\<forall>a\<in>set acts. trip_stop_id a \<in> s_id ` set stops) \<longrightarrow> length A = length acts)"
    by (intro exI)
  with valid toast show ?thesis by (intro conjI)
qed


theorem import_of_export_is_isomorphic_witness:
  "t_name exported_trip = ''Rajasthan'' \<and>
   map s_id exported_stops = [''s1'', ''s2''] \<and>
   map t_name (trips imported_store) = [''Rajasthan (Imported)''] \<and>
   map user_id (trips imported_store) = [''u2''] \<and>
   map is_public (trips imported_store) = [False] \<and>
   map share_code (trips imported_store) = [Some ''aaaaaaaa''] \<and>
   length (trip_stops imported_store) = 2 \<and>
   map city_name (trip_stops imported_store) = [''Jaipur'', ''Udaipur''] \<and>
   length (filter (\<lambda>a. trip_stop_id a = s_id (trip_stops imported_store ! 0))
             (trip_activities imported_store)) = 3 \<and>
   length (filter (\<lambda>a. trip_stop_id a = s_id (trip_stops imported_store ! 1))
             (trip_activities imported_store)) = 2 \<and>
   length (trip_activities imported_store) = 5"
proof -
  let ?r = "handleImport
              (Some (Text (Some (exportTrip ''2024-02-01T00:00:00Z'' exported_trip
                                   exported_stops exported_activities))))
              (Some ''u2'') two_codes empty_store"
  have name: "t_name exported_trip \<noteq> []"
    by (simp add: exported_trip_def mk_trip_def)
  have ids: "distinct (map s_id exported_stops)"
    by (simp add: exported_stops_def mk_stop_def)
  have nonempty: "\<forall>st\<in>set exported_stops. s_id st \<noteq> []"
    by (simp add: exported_stops_def mk_stop_def)
  have res: "?r = (fst ?r, snd ?r)" by simp
  note main = import_of_export_is_isomorphic [OF name ids nonempty res]
  from main obtain T S A where
    rows: "trips (snd ?r) = trips empty_store @ [T]"
          "trip_stops (snd ?r) = trip_stops empty_store @ S"
          "trip_activities (snd ?r) = trip_activities empty_store @ A"
    and truncT: "TripData.truncate T =
              (TripData.truncate exported_trip)
                \<lparr>user_id := ''u2'', t_name := t_name exported_trip @ '' (Imported)'',
                 is_public := False, share_code := Some (two_codes 0)\<rparr>"
    and lenS: "length S = length exported_stops"
    and fields: "\<forall>i<length exported_stops.
               StopData.truncate (S ! i) = StopData.truncate (exported_stops ! i) \<and>
               trip_id (S ! i) = t_id T \<and>
               map ActivityData.truncate (filter (\<lambda>a. trip_stop_id a = s_id (S ! i)) A) =
               map ActivityData.truncate
                 (filter (\<lambda>a. trip_stop_id a = s_id (exported_stops ! i)) exported_activities)"
    and complete: "(\<forall>a\<in>set exported_activities. trip_stop_id a \<in> s_id ` set exported_stops) \<longrightarrow>
               length A = length exported_activities"
    by blast
  have rows': "trips (snd ?r) = [T]" "trip_stops (snd ?r) = S" "trip_activities (snd ?r) = A"
    using rows by (simp_all add: empty_store_def)
  have len2: "length exported_stops = 2" by (simp add: exported_stops_def)
  have T1: "t_name T = ''Rajasthan (Imported)''" "user_id T = ''u2''" "is_public T = False"
    "share_code T = Some ''aaaaaaaa''"
  proof -
    have "t_name (TripData.truncate T) = ''Rajasthan (Imported)''"
      "user_id (TripData.truncate T) = ''u2''" "is_public (TripData.truncate T) = False"
      "share_code (TripData.truncate T) = Some ''aaaaaaaa''"
      unfolding truncT by (simp_all add: exported_trip_def mk_trip_def two_codes_def)
    then show "t_name T = ''Rajasthan (Imported)''" "user_id T = ''u2''" "is_public T = False"
      "share_code T = Some ''aaaaaaaa''"
      by (simp_all add: TripData.defs)
  qed
  have f0: "length (filter (\<lambda>a. trip_stop_id a = s_id (S ! 0)) A) = 3"
  proof -
    have "map ActivityData.truncate (filter (\<lambda>a. trip_stop_id a = s_id (S ! 0)) A) =
          map ActivityData.truncate
            (filter (\<lambda>a. trip_stop_id a = s_id (exported_stops ! 0)) exported_activities)"
      using fields len2 by simp
    then have "length (map ActivityData.truncate (filter (\<lambda>a. trip_stop_id a = s_id (S ! 0)) A)) =
          length (map ActivityData.truncate
            (filter (\<lambda>a. trip_stop_id a = s_id (exported_stops ! 0)) exported_activities))"
      by (rule arg_cong)
    then show ?thesis
      by (simp add: exported_stops_def exported_activities_def mk_stop_def mk_activity_def)
  qed
  have f1: "length (filter (\<lambda>a. trip_stop_id a = s_id (S ! 1)) A) = 2"
  proof -
    have "map ActivityData.truncate (filter (\<lambda>a. trip_stop_id a = s_id (S ! 1)) A) =
          map ActivityData.truncate
            (filter (\<lambda>a. trip_stop_id a = s_id (exported_stops ! 1)) exported_activities)"
      using fields len2 by simp
    then have "length (map ActivityData.truncate (filter (\<lambda>a. trip_stop_id a = s_id (S ! 1)) A)) =
          length (map ActivityData.truncate
            (filter (\<lambda>a. trip_stop_id a = s_id (exported_stops ! 1)) exported_activities))"
      by (rule arg_cong)
    then show ?thesis
      by (simp add: exported_stops_def exported_activities_def mk_stop_def mk_activity_def)
  qed
  have cities: "map city_name S = [''Jaipur'', ''Udaipur'']"
  proof -
    have c: "\<And>i. i < 2 \<Longrightarrow> city_name (S ! i) = city_name (exported_stops ! i)"
    proof -
      fix i :: nat assume i: "i < 2"
      then have "StopData.truncate (S ! i) = StopData.truncate (exported_stops ! i)"
        using fields len2 by simp
      then have "city_name (StopData.truncate (S ! i)) = city_name (StopData.truncate (exported_stops ! i))"
        by (rule arg_cong)
      then show "city_name (S ! i) = city_name (exported_stops ! i)"
        by (simp add: StopData.defs)
    qed
    have "length S = 2" using lenS len2 by simp
    then obtain x y where S: "S = [x, y]"
      by (cases S; cases "tl S") auto
    show ?thesis
      using c [of 0] c [of 1] by (simp add: S exported_stops_def mk_stop_def)
  qed
  have all5: "length A = 5"
  proof -
    have "\<forall>a\<in>set exported_activities. trip_stop_id a \<in> s_id ` set exported_stops"
      by (simp add: exported_activities_def exported_stops_def mk_activity_def mk_stop_def)
    with complete have "length A = length exported_activities" by blast
    then show ?thesis by (simp add: exported_activities_def)
  qed
  have lenS2: "length S = 2" using lenS len2 by simp
  have n1: "t_name exported_trip = ''Rajasthan''"
    by (simp add: exported_trip_def mk_trip_def)
  have n2: "map s_id exported_stops = [''s1'', ''s2'']"
    by (simp add: exported_stops_def mk_stop_def)
  have st: "imported_store = snd ?r" by (simp only: imported_store_def)
  from n1 n2 T1 lenS2 cities f0 f1 all5 show ?thesis
    unfolding st rows' by simp
qed


end
